theory Spec2Isabelle
  imports Main "HOL-Library.Word" "HOL-Library.Multiset"
begin

unbundle bit_operations_syntax

section \<open>Content fingerprints: \<open>hashlib.md5\<close>\<close>

text \<open>
  \<open>calculate_file_hash\<close> feeds the bytes of a file to \<open>hashlib.md5()\<close> and returns
  \<open>hexdigest()\<close>. The digest is modelled as RFC 1321 defines it: the message is padded to
  a multiple of 64 bytes, every 64-byte chunk goes through 64 rounds on four 32-bit
  words, and the four words are printed little-endian as 32 lower-case hex digits.
\<close>

type_synonym bytes = "8 word list"
type_synonym md5_state = "32 word \<times> 32 word \<times> 32 word \<times> 32 word"

definition md5_K :: "32 word list" where
  "md5_K = [
    0xd76aa478, 0xe8c7b756, 0x242070db, 0xc1bdceee,
    0xf57c0faf, 0x4787c62a, 0xa8304613, 0xfd469501,
    0x698098d8, 0x8b44f7af, 0xffff5bb1, 0x895cd7be,
    0x6b901122, 0xfd987193, 0xa679438e, 0x49b40821,
    0xf61e2562, 0xc040b340, 0x265e5a51, 0xe9b6c7aa,
    0xd62f105d, 0x02441453, 0xd8a1e681, 0xe7d3fbc8,
    0x21e1cde6, 0xc33707d6, 0xf4d50d87, 0x455a14ed,
    0xa9e3e905, 0xfcefa3f8, 0x676f02d9, 0x8d2a4c8a,
    0xfffa3942, 0x8771f681, 0x6d9d6122, 0xfde5380c,
    0xa4beea44, 0x4bdecfa9, 0xf6bb4b60, 0xbebfbc70,
    0x289b7ec6, 0xeaa127fa, 0xd4ef3085, 0x04881d05,
    0xd9d4d039, 0xe6db99e5, 0x1fa27cf8, 0xc4ac5665,
    0xf4292244, 0x432aff97, 0xab9423a7, 0xfc93a039,
    0x655b59c3, 0x8f0ccc92, 0xffeff47d, 0x85845dd1,
    0x6fa87e4f, 0xfe2ce6e0, 0xa3014314, 0x4e0811a1,
    0xf7537e82, 0xbd3af235, 0x2ad7d2bb, 0xeb86d391]"

definition md5_s :: "nat list" where
  "md5_s = [7, 12, 17, 22, 7, 12, 17, 22, 7, 12, 17, 22, 7, 12, 17, 22,
            5, 9, 14, 20, 5, 9, 14, 20, 5, 9, 14, 20, 5, 9, 14, 20,
            4, 11, 16, 23, 4, 11, 16, 23, 4, 11, 16, 23, 4, 11, 16, 23,
            6, 10, 15, 21, 6, 10, 15, 21, 6, 10, 15, 21, 6, 10, 15, 21]"

definition leftrotate :: "32 word \<Rightarrow> nat \<Rightarrow> 32 word" where
  "leftrotate x c = push_bit c x OR drop_bit (32 - c) x"

definition md5_F :: "nat \<Rightarrow> 32 word \<Rightarrow> 32 word \<Rightarrow> 32 word \<Rightarrow> 32 word" where
  "md5_F i B C D =
     (if i < 16 then (B AND C) OR (NOT B AND D)
      else if i < 32 then (D AND B) OR (NOT D AND C)
      else if i < 48 then B XOR C XOR D
      else C XOR (B OR NOT D))"

definition md5_g :: "nat \<Rightarrow> nat" where
  "md5_g i =
     (if i < 16 then i
      else if i < 32 then (5 * i + 1) mod 16
      else if i < 48 then (3 * i + 5) mod 16
      else (7 * i) mod 16)"

fun md5_round :: "32 word list \<Rightarrow> md5_state \<Rightarrow> nat \<Rightarrow> 32 word \<Rightarrow> nat \<Rightarrow> md5_state" where
  "md5_round M (A, B, C, D) i k s =
     (D, B + leftrotate (md5_F i B C D + A + k + M ! md5_g i) s, B, C)"

fun md5_rounds :: "32 word list \<Rightarrow> nat \<Rightarrow> 32 word list \<Rightarrow> nat list \<Rightarrow> md5_state \<Rightarrow> md5_state" where
  "md5_rounds M i (k # ks) (s # ss) st = md5_rounds M (i + 1) ks ss (md5_round M st i k s)"
| "md5_rounds M i _ _ st = st"

fun le_words :: "bytes \<Rightarrow> 32 word list" where
  "le_words (b0 # b1 # b2 # b3 # bs) =
     (ucast b0 OR push_bit 8 (ucast b1) OR push_bit 16 (ucast b2) OR push_bit 24 (ucast b3)) # le_words bs"
| "le_words _ = []"

fun md5_add :: "md5_state \<Rightarrow> md5_state \<Rightarrow> md5_state" where
  "md5_add (a0, b0, c0, d0) (A, B, C, D) = (a0 + A, b0 + B, c0 + C, d0 + D)"

definition md5_chunk :: "md5_state \<Rightarrow> bytes \<Rightarrow> md5_state" where
  "md5_chunk h chunk = md5_add h (md5_rounds (le_words chunk) 0 md5_K md5_s h)"

function md5_chunks :: "md5_state \<Rightarrow> bytes \<Rightarrow> md5_state" where
  "md5_chunks h bs = (if bs = [] then h else md5_chunks (md5_chunk h (take 64 bs)) (drop 64 bs))"
  by pat_completeness auto
termination
  by (relation "measure (\<lambda>(h, bs). length bs)") auto

declare md5_chunks.simps [simp del]

definition le64_bytes :: "nat \<Rightarrow> bytes" where
  "le64_bytes n = map (\<lambda>d. of_nat (n div d mod 256))
     [1, 256, 65536, 16777216, 4294967296, 1099511627776, 281474976710656, 72057594037927936]"

definition le32_bytes :: "32 word \<Rightarrow> bytes" where
  "le32_bytes w = [ucast w, ucast (drop_bit 8 w), ucast (drop_bit 16 w), ucast (drop_bit 24 w)]"

definition md5_pad :: "bytes \<Rightarrow> bytes" where
  "md5_pad msg = msg @ [0x80] @ replicate ((119 - length msg mod 64) mod 64) 0
                  @ le64_bytes (8 * length msg)"

fun md5_out :: "md5_state \<Rightarrow> bytes" where
  "md5_out (a, b, c, d) = le32_bytes a @ le32_bytes b @ le32_bytes c @ le32_bytes d"

definition md5_digest :: "bytes \<Rightarrow> bytes" where
  "md5_digest msg =
     md5_out (md5_chunks (0x67452301, 0xefcdab89, 0x98badcfe, 0x10325476) (md5_pad msg))"

definition hex_digit :: "nat \<Rightarrow> char" where
  "hex_digit n = ''0123456789abcdef'' ! n"

fun hex :: "bytes \<Rightarrow> string" where
  "hex [] = []"
| "hex (b # bs) = hex_digit (unat b div 16) # hex_digit (unat b mod 16) # hex bs"

definition md5_hexdigest :: "bytes \<Rightarrow> string" where
  "md5_hexdigest msg = hex (md5_digest msg)"

section \<open>The environment of a run\<close>

text \<open>
  A path is the string \<open>str(filepath)\<close>; it is the key of the cache and the argument of
  \<open>open\<close>. What the scripts take from the outside is collected in one record:
  the directory listing (\<open>source_dir.rglob(pattern)\<close>), the bytes of each file
  (\<open>Inl msg\<close> when \<open>open\<close> or \<open>read\<close> raises), the UTF-8 decoding done by
  \<open>open(filepath, 'r', encoding='utf-8').read()\<close> (\<open>Inl msg\<close> when it raises), the regular
  expression engine (\<open>REGEX_PATTERNS[key].findall(content)\<close>, and the pattern compiled
  inside \<open>extract_validation_strings\<close>), the methods \<open>str.strip\<close> and \<open>str.lower\<close>,
  and the clock: \<open>now E i\<close> is \<open>datetime.now().isoformat()\<close> at the \<open>i\<close>-th work item.
\<close>

type_synonym path = string

record env =
  rglob :: "path \<Rightarrow> string \<Rightarrow> path list"
  read_bytes :: "path \<Rightarrow> string + bytes"
  decode_utf8 :: "bytes \<Rightarrow> string + string"
  findall :: "string \<Rightarrow> string \<Rightarrow> string list"
  findall_validation :: "string \<Rightarrow> string list"
  strip :: "string \<Rightarrow> string"
  lower :: "string \<Rightarrow> string"
  now :: "nat \<Rightarrow> string"

definition read_text :: "env \<Rightarrow> path \<Rightarrow> string + string" where
  "read_text E filepath =
     (case read_bytes E filepath of Inl msg \<Rightarrow> Inl msg | Inr b \<Rightarrow> decode_utf8 E b)"

definition calculate_file_hash :: "env \<Rightarrow> path \<Rightarrow> string" where
  "calculate_file_hash E filepath =
     (case read_bytes E filepath of Inl msg \<Rightarrow> [] | Inr b \<Rightarrow> md5_hexdigest b)"

subsection \<open>Paths\<close>

text \<open>
  \<open>filepath.parts\<close> of a POSIX path: the root, when the path is absolute, followed by
  the segments between slashes; empty segments and \<open>.\<close> are dropped as pathlib does
  when it parses a path. The root is \<open>//\<close> for a path that starts with exactly two
  slashes and \<open>/\<close> for any other absolute path. \<open>filepath.suffix\<close> is the part of the name from its
  last dot, unless that dot is the first or the last character of the name.
\<close>

fun split_on :: "char \<Rightarrow> string \<Rightarrow> string list" where
  "split_on c [] = [[]]"
| "split_on c (x # xs) =
     (if x = c then [] # split_on c xs
      else (case split_on c xs of [] \<Rightarrow> [[x]] | s # ss \<Rightarrow> (x # s) # ss))"

definition path_root :: "path \<Rightarrow> string list" where
  "path_root p =
     (if take 2 p = ''//'' \<and> take 3 p \<noteq> ''///'' then [''//'']
      else if take 1 p = ''/'' then [''/'']
      else [])"

definition parts :: "path \<Rightarrow> string list" where
  "parts p = path_root p @ filter (\<lambda>s. s \<noteq> [] \<and> s \<noteq> ''.'') (split_on CHR ''/'' p)"

definition path_name :: "path \<Rightarrow> string" where
  "path_name p =
     (case filter (\<lambda>s. s \<noteq> [] \<and> s \<noteq> ''.'') (split_on CHR ''/'' p) of
        [] \<Rightarrow> [] | s # ss \<Rightarrow> last (s # ss))"

definition suffix :: "path \<Rightarrow> string" where
  "suffix p =
     (let name = path_name p;
          ext = rev (takeWhile (\<lambda>c. c \<noteq> CHR ''.'') (rev name))
      in if CHR ''.'' \<in> set name \<and> 0 < length name - length ext - 1 \<and> ext \<noteq> []
         then CHR ''.'' # ext else [])"

definition lstrip_dot :: "string \<Rightarrow> string" where
  "lstrip_dot s = dropWhile (\<lambda>c. c = CHR ''.'') s"

subsection \<open>Extraction\<close>

text \<open>
  A Python set of strings is a list without duplicates (\<open>py_set\<close> of the matches);
  \<open>len\<close> is its length and \<open>list(v)\<close> is the list itself. A result dictionary is the list
  of its items, in insertion order.
\<close>

definition py_set :: "string list \<Rightarrow> string list" where
  "py_set xs = remdups xs"

fun contains :: "string \<Rightarrow> string \<Rightarrow> bool" where
  "contains [] sub = (sub = [])"
| "contains (c # cs) sub = (take (length sub) (c # cs) = sub \<or> contains cs sub)"

definition VALIDATION_KEYWORDS :: "string list" where
  "VALIDATION_KEYWORDS = [''error'', ''success'', ''warning'', ''info'', ''confirm'',
                          ''saved'', ''deleted'', ''updated'', ''login'', ''logout'']"

definition stripped :: "env \<Rightarrow> string list \<Rightarrow> string list" where
  "stripped E matches = py_set (map (strip E) (filter (\<lambda>m. strip E m \<noteq> []) matches))"

definition extract_jsx_strings :: "env \<Rightarrow> string \<Rightarrow> string list" where
  "extract_jsx_strings E content = stripped E (findall E ''jsx_content'' content)"

definition extract_button_text :: "env \<Rightarrow> string \<Rightarrow> string list" where
  "extract_button_text E content = stripped E (findall E ''buttons'' content)"

definition extract_label_text :: "env \<Rightarrow> string \<Rightarrow> string list" where
  "extract_label_text E content = stripped E (findall E ''labels'' content)"

definition extract_placeholders :: "env \<Rightarrow> string \<Rightarrow> string list" where
  "extract_placeholders E content = py_set (findall E ''placeholders'' content)"

definition extract_attribute_strings :: "env \<Rightarrow> string \<Rightarrow> string list" where
  "extract_attribute_strings E content =
     py_set (findall E ''title'' content @ findall E ''alt'' content
             @ findall E ''aria_label'' content)"

definition extract_toast_alert_strings :: "env \<Rightarrow> string \<Rightarrow> string list" where
  "extract_toast_alert_strings E content =
     (let all_matches = findall E ''message'' content @ findall E ''toast_title'' content
                        @ findall E ''text'' content
      in py_set (filter (\<lambda>m. list_ex (\<lambda>keyword. contains (lower E m) keyword)
                                 VALIDATION_KEYWORDS) all_matches))"

definition extract_validation_strings :: "env \<Rightarrow> string \<Rightarrow> string list" where
  "extract_validation_strings E content = py_set (findall_validation E content)"

definition extract_string_literals :: "env \<Rightarrow> string \<Rightarrow> string list" where
  "extract_string_literals E content = py_set (findall E ''ui_literals'' content)"

type_synonym results = "(string \<times> string list) list"

definition extract_from_file :: "env \<Rightarrow> path \<Rightarrow> string \<Rightarrow> results" where
  "extract_from_file E filepath file_type =
     (case read_text E filepath of
        Inl msg \<Rightarrow> [(''error'', [msg])]
      | Inr content \<Rightarrow>
          (if file_type \<in> set [''jsx'', ''tsx'', ''vue'', ''html'']
           then [(''jsx_content'', extract_jsx_strings E content),
                 (''buttons'', extract_button_text E content),
                 (''labels'', extract_label_text E content),
                 (''placeholders'', extract_placeholders E content),
                 (''attributes'', extract_attribute_strings E content),
                 (''toasts_alerts'', extract_toast_alert_strings E content)]
           else [])
          @ (if file_type \<in> set [''js'', ''jsx'', ''ts'', ''tsx'', ''vue'']
             then [(''validation'', extract_validation_strings E content),
                   (''ui_literals'', extract_string_literals E content)]
             else []))"

definition has_error :: "results \<Rightarrow> bool" where
  "has_error results = (''error'' \<in> fst ` set results)"

subsection \<open>The aggregate\<close>

text \<open>
  \<open>all_strings\<close> is a \<open>defaultdict(set)\<close> and \<open>file_counts\<close> a \<open>defaultdict(int)\<close>: a
  missing key reads as the empty set and as 0, and is created by the first update.
  One step of the inner loops
  \<open>all_strings[category].update(strings); file_counts[category] += len(strings)\<close>
  is \<open>add_strings\<close>; the loop over \<open>results.items()\<close> is \<open>merge_results\<close>.
\<close>

record aggregate =
  all_strings :: "string \<rightharpoonup> string set"
  file_counts :: "string \<rightharpoonup> nat"

definition empty_aggregate :: aggregate where
  "empty_aggregate = \<lparr>all_strings = Map.empty, file_counts = Map.empty\<rparr>"

definition strings_of :: "aggregate \<Rightarrow> string \<Rightarrow> string set" where
  "strings_of agg category = (case all_strings agg category of None \<Rightarrow> {} | Some s \<Rightarrow> s)"

definition count_of :: "aggregate \<Rightarrow> string \<Rightarrow> nat" where
  "count_of agg category = (case file_counts agg category of None \<Rightarrow> 0 | Some n \<Rightarrow> n)"

definition add_strings :: "string \<times> string list \<Rightarrow> aggregate \<Rightarrow> aggregate" where
  "add_strings item agg =
     \<lparr>all_strings = (all_strings agg)(fst item \<mapsto> strings_of agg (fst item) \<union> set (snd item)),
      file_counts = (file_counts agg)(fst item \<mapsto> count_of agg (fst item) + length (snd item))\<rparr>"

definition merge_results :: "results \<Rightarrow> aggregate \<Rightarrow> aggregate" where
  "merge_results results agg = fold add_strings results agg"

subsection \<open>The cache and its file\<close>

text \<open>
  A cache entry is the JSON object \<open>{'hash': .., 'timestamp': .., 'results': ..}\<close>; the
  code reads it with \<open>.get\<close>, so each key may be missing (\<open>None\<close>). The file
  \<open>extraction_cache.json\<close> of a cache directory is missing, or holds text that
  \<open>json.load\<close> rejects (the empty and the truncated file among them), or holds the dump
  of a cache. The disk maps each cache directory to its file.
\<close>

record entry =
  e_hash :: "string option"
  e_timestamp :: "string option"
  e_results :: "results option"

type_synonym cache = "path \<rightharpoonup> entry"

datatype cache_file = Missing | Unparsable | Stored cache

type_synonym disk = "string \<Rightarrow> cache_file"

definition CACHE_DIR :: string where
  "CACHE_DIR = ''.i18n-cache''"

definition load_cache :: "disk \<Rightarrow> string \<Rightarrow> cache" where
  "load_cache d cache_dir =
     (case d cache_dir of Missing \<Rightarrow> Map.empty | Unparsable \<Rightarrow> Map.empty | Stored c \<Rightarrow> c)"

text \<open>
  \<open>save_cache\<close> opens the cache file itself with mode \<open>'w'\<close>, which truncates it in
  place, and then dumps the cache into it. \<open>save_cache_steps\<close> lists the states the disk
  passes through: the truncated file, then the complete dump. \<open>save_cache\<close> is the last
  of them.
\<close>

definition save_cache_steps :: "cache \<Rightarrow> string \<Rightarrow> disk \<Rightarrow> disk list" where
  "save_cache_steps c cache_dir d = [d(cache_dir := Unparsable), d(cache_dir := Stored c)]"

definition save_cache :: "cache \<Rightarrow> string \<Rightarrow> disk \<Rightarrow> disk" where
  "save_cache c cache_dir d = last (save_cache_steps c cache_dir d)"

subsection \<open>Discovery\<close>

definition excluded :: "string list \<Rightarrow> path \<Rightarrow> bool" where
  "excluded exclude_dirs filepath =
     list_ex (\<lambda>exclude_dir. exclude_dir \<in> set (parts filepath)) exclude_dirs"

definition collect_files :: "env \<Rightarrow> path \<Rightarrow> string list \<Rightarrow> string list \<Rightarrow> path list" where
  "collect_files E source_dir file_types exclude_dirs =
     concat (map (\<lambda>file_type.
               filter (\<lambda>filepath. \<not> excluded exclude_dirs filepath)
                 (rglob E source_dir (''**/*.'' @ file_type)))
             file_types)"

subsection \<open>Printed output\<close>

definition digit_char :: "nat \<Rightarrow> char" where
  "digit_char n = ''0123456789'' ! n"

fun str_nat :: "nat \<Rightarrow> string" where
  "str_nat n = (if n < 10 then [digit_char n] else str_nat (n div 10) @ [digit_char (n mod 10)])"

declare str_nat.simps [simp del]

definition statistics :: "nat \<Rightarrow> nat \<Rightarrow> nat \<Rightarrow> string list" where
  "statistics total_files cached_files new_files =
     [''[*] Cache Statistics:'',
      ''  Total files: '' @ str_nat total_files,
      ''  Cached files: '' @ str_nat cached_files @ '' (''
         @ str_nat (if total_files \<noteq> 0 then cached_files * 100 div total_files else 0) @ ''%)'',
      ''  New/changed files: '' @ str_nat new_files]
     @ (if cached_files > 0
        then [''[FAST] Using cached results for '' @ str_nat cached_files @ '' files'']
        else [])"

subsection \<open>\<open>scan_directory_incremental\<close>\<close>

text \<open>
  The classification loop: a file whose path is in the cache with a stored hash equal to
  its current hash has its cached results merged; any other file is appended to
  \<open>files_to_process\<close>. The loop state is the aggregate, \<open>cached_files\<close> and
  \<open>files_to_process\<close>.
\<close>

definition cache_hit :: "env \<Rightarrow> cache \<Rightarrow> path \<Rightarrow> bool" where
  "cache_hit E c filepath =
     (case c filepath of None \<Rightarrow> False
      | Some e \<Rightarrow> e_hash e = Some (calculate_file_hash E filepath))"

definition cached_data :: "cache \<Rightarrow> path \<Rightarrow> results" where
  "cached_data c filepath =
     (case c filepath of None \<Rightarrow> []
      | Some e \<Rightarrow> (case e_results e of None \<Rightarrow> [] | Some r \<Rightarrow> r))"

fun classify :: "env \<Rightarrow> cache \<Rightarrow> path list \<Rightarrow> aggregate \<times> nat \<times> path list
    \<Rightarrow> aggregate \<times> nat \<times> path list" where
  "classify E c [] st = st"
| "classify E c (filepath # rest) (agg, cached_files, files_to_process) =
     (if cache_hit E c filepath
      then classify E c rest
             (merge_results (cached_data c filepath) agg, cached_files + 1, files_to_process)
      else classify E c rest (agg, cached_files, files_to_process @ [filepath]))"

text \<open>
  The processing loop over \<open>enumerate(files_to_process, 1)\<close>. Its state is the cache,
  the aggregate and the lines printed. A result with the key \<open>error\<close> changes neither
  the cache nor the aggregate.
\<close>

fun process :: "env \<Rightarrow> bool \<Rightarrow> nat \<Rightarrow> nat \<Rightarrow> path list \<Rightarrow> cache \<times> aggregate \<times> string list
    \<Rightarrow> cache \<times> aggregate \<times> string list" where
  "process E verbose new_files i [] st = st"
| "process E verbose new_files i (filepath # rest) (c, agg, out) =
     (let file_type = lstrip_dot (suffix filepath);
          out' = out @ (if verbose
                        then [''  ['' @ str_nat i @ ''/'' @ str_nat new_files @ ''] '' @ filepath]
                        else []);
          results = extract_from_file E filepath file_type
      in if \<not> has_error results
         then process E verbose new_files (i + 1) rest
                (c(filepath \<mapsto> \<lparr>e_hash = Some (calculate_file_hash E filepath),
                                 e_timestamp = Some (now E i),
                                 e_results = Some results\<rparr>),
                 merge_results results agg, out')
         else process E verbose new_files (i + 1) rest (c, agg, out'))"

text \<open>
  A run returns the two dictionaries; next to them the model records its effects: the
  lines printed, the files handed to \<open>extract_from_file\<close>, in order, and the states the
  disk went through (none when \<open>save_cache\<close> is not called).
\<close>

record run =
  strings :: "string \<rightharpoonup> string set"
  counts :: "string \<rightharpoonup> nat"
  printed :: "string list"
  extracted :: "path list"
  disk_writes :: "disk list"

definition effective_cache_dir :: "string option \<Rightarrow> string" where
  "effective_cache_dir cache_dir =
     (case cache_dir of None \<Rightarrow> CACHE_DIR | Some s \<Rightarrow> if s = [] then CACHE_DIR else s)"

definition scan_directory_incremental ::
    "env \<Rightarrow> disk \<Rightarrow> path \<Rightarrow> string list \<Rightarrow> string list \<Rightarrow> string option \<Rightarrow> bool \<Rightarrow> bool \<Rightarrow> run" where
  "scan_directory_incremental E d source_dir file_types exclude_dirs cache_dir force_rescan verbose =
     (let dir = effective_cache_dir cache_dir;
          c = load_cache d dir;
          all_files = collect_files E source_dir file_types exclude_dirs
      in if all_files = []
         then \<lparr>strings = Map.empty, counts = Map.empty, printed = [], extracted = [],
               disk_writes = []\<rparr>
         else
           (case (if force_rescan then (empty_aggregate, 0, all_files)
                  else classify E c all_files (empty_aggregate, 0, [])) of
              (agg, cached_files, files_to_process) \<Rightarrow>
                let total_files = length all_files;
                    new_files = length files_to_process;
                    out = (if force_rescan then [''[!] Forced full re-scan (cache ignored)'']
                           else [])
                          @ statistics total_files cached_files new_files
                in if new_files > 0
                   then (case process E verbose new_files 1 files_to_process
                                (c, agg, out @ [''[>] Processing '' @ str_nat new_files
                                                @ '' files...'']) of
                           (c', agg', out') \<Rightarrow>
                             \<lparr>strings = all_strings agg', counts = file_counts agg',
                              printed = out' @ [''[OK] Cache updated''],
                              extracted = files_to_process,
                              disk_writes = save_cache_steps c' dir d\<rparr>)
                   else \<lparr>strings = all_strings agg, counts = file_counts agg,
                         printed = out, extracted = [], disk_writes = []\<rparr>))"

definition disk_after :: "disk \<Rightarrow> run \<Rightarrow> disk" where
  "disk_after d r = last (d # disk_writes r)"

subsection \<open>The merge loop of \<open>scan_directory_parallel\<close>\<close>

text \<open>
  In \<open>extract-strings-fast.py\<close> every file is submitted to the pool with the file type
  of the pattern that found it, and the results are merged in the order in which
  \<open>as_completed\<close> yields them; a result with the key \<open>error\<close> is skipped. The completion
  order is an argument of the model.
\<close>

definition process_file :: "env \<Rightarrow> path \<times> string \<Rightarrow> path \<times> results" where
  "process_file E args = (fst args, extract_from_file E (fst args) (snd args))"

definition merge_completed :: "path \<times> results \<Rightarrow> aggregate \<Rightarrow> aggregate" where
  "merge_completed done agg = (if has_error (snd done) then agg else merge_results (snd done) agg)"

definition collect_pairs :: "env \<Rightarrow> path \<Rightarrow> string list \<Rightarrow> string list \<Rightarrow> (path \<times> string) list" where
  "collect_pairs E source_dir file_types exclude_dirs =
     concat (map (\<lambda>file_type.
               map (\<lambda>filepath. (filepath, file_type))
                 (filter (\<lambda>filepath. \<not> excluded exclude_dirs filepath)
                    (rglob E source_dir (''**/*.'' @ file_type))))
             file_types)"

definition scan_directory_parallel :: "env \<Rightarrow> (path \<times> string) list \<Rightarrow> aggregate" where
  "scan_directory_parallel E completed =
     fold merge_completed (map (process_file E) completed) empty_aggregate"

section \<open>Notions used to state the properties\<close>

text \<open>
  The definitions of this section are not part of the scripts. They name what the
  properties speak about: the fresh results of a file, the documents whose results a run
  merges, the files a run hands to \<open>extract_from_file\<close>, the cache the processing loop
  leaves behind, the lines it prints, and small example environments.
\<close>

text \<open>
  \<open>fresh E filepath\<close> is what the processing loop extracts from a file: the file type is
  the suffix of the path without its dot. \<open>failed\<close> is the test \<open>'error' in results\<close>.
\<close>

definition fresh :: "env \<Rightarrow> path \<Rightarrow> results" where
  "fresh E filepath = extract_from_file E filepath (lstrip_dot (suffix filepath))"

definition failed :: "env \<Rightarrow> path \<Rightarrow> bool" where
  "failed E filepath = has_error (fresh E filepath)"

text \<open>The cache component of the processing loop, taken alone.\<close>

fun process_cache :: "env \<Rightarrow> nat \<Rightarrow> path list \<Rightarrow> cache \<Rightarrow> cache" where
  "process_cache E i [] c = c"
| "process_cache E i (filepath # rest) c =
     process_cache E (i + 1) rest
       (if failed E filepath then c
        else c(filepath \<mapsto> \<lparr>e_hash = Some (calculate_file_hash E filepath),
                             e_timestamp = Some (now E i),
                             e_results = Some (fresh E filepath)\<rparr>))"

text \<open>
  The per-document results a run merges: without force, the cached results of every hit
  followed by the fresh results of every miss whose extraction succeeded; with force,
  the fresh results of every file whose extraction succeeded. \<open>work_items\<close> are the files
  handed to \<open>extract_from_file\<close>.
\<close>

definition merged_documents :: "env \<Rightarrow> cache \<Rightarrow> bool \<Rightarrow> path list \<Rightarrow> results list" where
  "merged_documents E c force_rescan all_files =
     (if force_rescan then map (fresh E) (filter (\<lambda>fp. \<not> failed E fp) all_files)
      else map (cached_data c) (filter (cache_hit E c) all_files)
           @ map (fresh E) (filter (\<lambda>fp. \<not> failed E fp)
                              (filter (\<lambda>fp. \<not> cache_hit E c fp) all_files)))"

definition work_items :: "env \<Rightarrow> cache \<Rightarrow> bool \<Rightarrow> path list \<Rightarrow> path list" where
  "work_items E c force_rescan all_files =
     (if force_rescan then all_files else filter (\<lambda>fp. \<not> cache_hit E c fp) all_files)"

text \<open>
  The fragments one document contributes to a category, their number, and the two
  dictionaries a run returns, read as an aggregate.
\<close>

definition fragments :: "string \<Rightarrow> results \<Rightarrow> string list" where
  "fragments category results = concat (map snd (filter (\<lambda>item. fst item = category) results))"

definition occurrences :: "string \<Rightarrow> results \<Rightarrow> nat" where
  "occurrences category results = length (fragments category results)"

definition run_aggregate :: "run \<Rightarrow> aggregate" where
  "run_aggregate r = \<lparr>all_strings = strings r, file_counts = counts r\<rparr>"

text \<open>
  Every stored hash is a 32-character digest. \<open>without_file\<close> removes one document from
  the directory listing and changes nothing else.
\<close>

definition cache_wf :: "cache \<Rightarrow> bool" where
  "cache_wf c = (\<forall>filepath e h. c filepath = Some e \<longrightarrow> e_hash e = Some h \<longrightarrow> length h = 32)"

definition without_file :: "path \<Rightarrow> env \<Rightarrow> env" where
  "without_file filepath E =
     E\<lparr>rglob := \<lambda>source_dir pattern. removeAll filepath (rglob E source_dir pattern)\<rparr>"

text \<open>The lines the processing loop prints when \<open>verbose\<close> is set.\<close>

fun progress_lines :: "bool \<Rightarrow> nat \<Rightarrow> nat \<Rightarrow> path list \<Rightarrow> string list" where
  "progress_lines verbose new_files i [] = []"
| "progress_lines verbose new_files i (filepath # rest) =
     (if verbose then [''  ['' @ str_nat i @ ''/'' @ str_nat new_files @ ''] '' @ filepath] else [])
     @ progress_lines verbose new_files (i + 1) rest"

subsection \<open>Example environments\<close>

text \<open>
  A small tree under \<open>src\<close>: three JavaScript files holding the text \<open>Save\<close>, one of
  them below \<open>node_modules\<close>, and a style sheet that cannot be opened. The example
  pattern engine reports the whole content twice as a UI literal and nothing else.
\<close>

definition ascii_bytes :: "string \<Rightarrow> bytes" where
  "ascii_bytes s = map (\<lambda>c. of_nat (of_char c)) s"

definition ascii_decode :: "bytes \<Rightarrow> string + string" where
  "ascii_decode b =
     (if list_all (\<lambda>w. w < 128) b then Inr (map (\<lambda>w. char_of (unat w)) b)
      else Inl ''invalid start byte'')"

definition demo_env :: env where
  "demo_env =
     \<lparr>rglob = (\<lambda>source_dir pattern.
          if source_dir = ''src'' \<and> pattern = ''**/*.js''
          then [''src/app.js'', ''src/my_node_modules_backup/a.js'', ''src/node_modules/b.js'']
          else if source_dir = ''src'' \<and> pattern = ''**/*.css'' then [''src/locked.css'']
          else []),
      read_bytes = (\<lambda>filepath.
          if filepath = ''src/locked.css'' then Inl ''[Errno 13] Permission denied''
          else Inr (ascii_bytes ''Save'')),
      decode_utf8 = ascii_decode,
      findall = (\<lambda>key content. if key = ''ui_literals'' then [content, content] else []),
      findall_validation = (\<lambda>content. []),
      strip = (\<lambda>s. s),
      lower = (\<lambda>s. s),
      now = (\<lambda>i. ''2024-01-01T00:00:0'' @ str_nat i)\<rparr>"

definition no_cache :: disk where
  "no_cache = (\<lambda>cache_dir. Missing)"

definition corrupt_cache :: disk where
  "corrupt_cache = no_cache(''.i18n-cache'' := Unparsable)"

definition stale_cache :: disk where
  "stale_cache = no_cache(''.i18n-cache'' := Stored
     [''src/app.js'' \<mapsto> \<lparr>e_hash = Some ''stale'', e_timestamp = Some ''2023-12-31T00:00:00'',
                          e_results = Some [(''ui_literals'', [''Old''])]\<rparr>])"

definition warm_cache :: disk where
  "warm_cache = no_cache(''.i18n-cache'' := Stored
     [''src/app.js'' \<mapsto> \<lparr>e_hash = Some (calculate_file_hash demo_env ''src/app.js''),
                          e_timestamp = Some ''2023-12-31T00:00:00'',
                          e_results = Some [(''validation'', []), (''ui_literals'', [''Save''])]\<rparr>])"

text \<open>The same tree with a style sheet that can be read.\<close>

definition readable_env :: env where
  "readable_env = demo_env\<lparr>read_bytes := (\<lambda>filepath. Inr (ascii_bytes ''Save''))\<rparr>"

text \<open>
  Two printable texts of 72 bytes that differ in one byte and have the same MD5 digest,
  the two 64-byte blocks of each padded text, and a tree whose only file holds a given
  content.
\<close>

definition text_a :: bytes where
  "text_a = ascii_bytes ''TEXTCOLLBYfGiJUETHQ4hAcKSMd5zYpgqf1YRDhkmxHkhPWptrkoyz28wnI9V0aHeAuaKnak''"

definition text_b :: bytes where
  "text_b = ascii_bytes ''TEXTCOLLBYfGiJUETHQ4hEcKSMd5zYpgqf1YRDhkmxHkhPWptrkoyz28wnI9V0aHeAuaKnak''"

definition md5_init :: md5_state where
  "md5_init = (0x67452301, 0xefcdab89, 0x98badcfe, 0x10325476)"

definition block_a :: bytes where
  "block_a = take 64 (md5_pad text_a)"

definition block_b :: bytes where
  "block_b = take 64 (md5_pad text_b)"

definition block_tail :: bytes where
  "block_tail = drop 64 (md5_pad text_a)"

definition collision_env :: "bytes \<Rightarrow> env" where
  "collision_env content =
     \<lparr>rglob = (\<lambda>source_dir pattern.
          if source_dir = ''src'' \<and> pattern = ''**/*.js'' then [''src/a.js''] else []),
      read_bytes = (\<lambda>filepath. Inr content),
      decode_utf8 = ascii_decode,
      findall = (\<lambda>key content. if key = ''ui_literals'' then [content] else []),
      findall_validation = (\<lambda>content. []),
      strip = (\<lambda>s. s),
      lower = (\<lambda>s. s),
      now = (\<lambda>i. ''2024-01-01T00:00:00'')\<rparr>"

section \<open>Properties\<close>

lemma classify_eq:
  "classify E c fs (agg, n, tp) =
     (fold merge_results (map (cached_data c) (filter (cache_hit E c) fs)) agg,
      n + length (filter (cache_hit E c) fs),
      tp @ filter (\<lambda>fp. \<not> cache_hit E c fp) fs)"
  by (induction fs arbitrary: agg n tp) simp_all

lemma process_eq:
  "\<exists>out'. process E verbose nf i fs (c, agg, out) =
     (process_cache E i fs c,
      fold (\<lambda>fp. merge_results (fresh E fp)) (filter (\<lambda>fp. \<not> failed E fp) fs) agg,
      out')"
  by (induction fs arbitrary: c agg out i) (simp_all add: Let_def fresh_def failed_def)

lemma has_error_extract:
  "has_error (extract_from_file E filepath file_type) \<longleftrightarrow> (\<exists>msg. read_text E filepath = Inl msg)"
  by (cases "read_text E filepath") (auto simp: has_error_def extract_from_file_def)

lemma failed_iff: "failed E filepath \<longleftrightarrow> (\<exists>msg. read_text E filepath = Inl msg)"
  by (simp add: failed_def fresh_def has_error_extract)

text \<open>
  C7. Discovery keeps a path found by \<open>rglob\<close> exactly when no whole segment of
  \<open>filepath.parts\<close> equals an excluded name: the test is membership in the tuple of
  segments, at any depth, never a substring test. Both scripts collect files this way.
\<close>

theorem discovery_excludes_exact_segments:
  "(filepath \<in> set (collect_files E source_dir file_types exclude_dirs) \<longleftrightarrow>
      (\<exists>file_type \<in> set file_types.
          filepath \<in> set (rglob E source_dir (''**/*.'' @ file_type)))
      \<and> \<not> (\<exists>segment \<in> set (parts filepath). segment \<in> set exclude_dirs))
   \<and> ((filepath, file_type) \<in> set (collect_pairs E source_dir file_types exclude_dirs) \<longleftrightarrow>
        file_type \<in> set file_types
        \<and> filepath \<in> set (rglob E source_dir (''**/*.'' @ file_type))
        \<and> \<not> (\<exists>segment \<in> set (parts filepath). segment \<in> set exclude_dirs))"
  by (auto simp: collect_files_def collect_pairs_def excluded_def list_ex_iff)

lemma empty_aggregate_sel [simp]:
  "all_strings empty_aggregate = Map.empty" "file_counts empty_aggregate = Map.empty"
  by (simp_all add: empty_aggregate_def)

lemma process_fst: "fst (process E verbose nf i fs (c, agg, out)) = process_cache E i fs c"
  using process_eq [of E verbose nf i fs c agg out] by auto

lemma process_snd:
  "fst (snd (process E verbose nf i fs (c, agg, out)))
   = fold merge_results (map (fresh E) (filter (\<lambda>fp. \<not> failed E fp) fs)) agg"
  using process_eq [of E verbose nf i fs c agg out] by (auto simp: fold_map comp_def)

lemma scan_fields:
  fixes E d source_dir file_types exclude_dirs cache_dir force verbose
  defines "dir \<equiv> effective_cache_dir cache_dir"
  defines "c \<equiv> load_cache d dir"
  defines "fs \<equiv> collect_files E source_dir file_types exclude_dirs"
  defines "w \<equiv> work_items E c force fs"
  defines "r \<equiv> scan_directory_incremental E d source_dir file_types exclude_dirs cache_dir
                    force verbose"
  shows "strings r = all_strings (fold merge_results (merged_documents E c force fs) empty_aggregate)"
    and "counts r = file_counts (fold merge_results (merged_documents E c force fs) empty_aggregate)"
    and "extracted r = w"
    and "disk_writes r = (if w = [] then [] else save_cache_steps (process_cache E 1 w c) dir d)"
proof -
  have w_Nil: "fs = [] \<Longrightarrow> w = []"
    by (simp add: w_def work_items_def)
  show "strings r = all_strings (fold merge_results (merged_documents E c force fs) empty_aggregate)"
    unfolding r_def scan_directory_incremental_def Let_def
    by (cases force)
       (simp_all add: split_beta classify_eq process_snd merged_documents_def
          dir_def c_def fs_def del: filter_filter)
  show "counts r = file_counts (fold merge_results (merged_documents E c force fs) empty_aggregate)"
    unfolding r_def scan_directory_incremental_def Let_def
    by (cases force)
       (simp_all add: split_beta classify_eq process_snd merged_documents_def
          dir_def c_def fs_def del: filter_filter)
  show "extracted r = w"
    unfolding r_def scan_directory_incremental_def Let_def
    by (cases force)
       (simp_all add: split_beta classify_eq w_def work_items_def dir_def c_def fs_def)
  show "disk_writes r = (if w = [] then [] else save_cache_steps (process_cache E 1 w c) dir d)"
    unfolding r_def scan_directory_incremental_def Let_def
    by (cases force)
       (simp_all add: split_beta classify_eq process_fst w_def work_items_def
          dir_def c_def fs_def)
qed

lemma scan_cache_after:
  "load_cache (disk_after d (scan_directory_incremental E d source_dir file_types exclude_dirs
       cache_dir force verbose)) (effective_cache_dir cache_dir)
   = process_cache E 1
       (work_items E (load_cache d (effective_cache_dir cache_dir)) force
          (collect_files E source_dir file_types exclude_dirs))
       (load_cache d (effective_cache_dir cache_dir))"
  by (simp add: disk_after_def scan_fields(4) save_cache_steps_def load_cache_def)

lemma add_strings_commute:
  "add_strings x (add_strings y agg) = add_strings y (add_strings x agg)"
  by (cases "fst x = fst y")
     (auto simp: add_strings_def strings_of_def count_of_def fun_upd_twist)

lemma add_strings_merge_commute:
  "add_strings x (merge_results r agg) = merge_results r (add_strings x agg)"
  unfolding merge_results_def
  by (rule fold_commute_apply) (simp add: fun_eq_iff add_strings_commute)

lemma merge_results_commute:
  "merge_results r (merge_results r' agg) = merge_results r' (merge_results r agg)"
proof -
  have "merge_results r' (fold add_strings r agg) = fold add_strings r (merge_results r' agg)"
    by (rule fold_commute_apply) (simp add: fun_eq_iff add_strings_merge_commute)
  then show ?thesis
    by (simp add: merge_results_def)
qed

lemma merge_completed_commute:
  "merge_completed x (merge_completed y agg) = merge_completed y (merge_completed x agg)"
  by (simp add: merge_completed_def merge_results_commute)

lemma fold_merge_results_perm:
  assumes "mset rs = mset rs'"
  shows "fold merge_results rs agg = fold merge_results rs' agg"
proof -
  have "fold merge_results rs = fold merge_results rs'"
    by (rule fold_multiset_equiv) (simp_all add: fun_eq_iff merge_results_commute assms)
  then show ?thesis by simp
qed

lemma fold_merge_completed_perm:
  assumes "mset rs = mset rs'"
  shows "fold merge_completed rs agg = fold merge_completed rs' agg"
proof -
  have "fold merge_completed rs = fold merge_completed rs'"
    by (rule fold_multiset_equiv) (simp_all add: fun_eq_iff merge_completed_commute assms)
  then show ?thesis by simp
qed

lemma count_of_add_strings:
  "count_of (add_strings item agg) category
   = count_of agg category + (if fst item = category then length (snd item) else 0)"
  by (simp add: add_strings_def count_of_def)

lemma strings_of_add_strings:
  "strings_of (add_strings item agg) category
   = strings_of agg category \<union> (if fst item = category then set (snd item) else {})"
  by (simp add: add_strings_def strings_of_def)

lemma count_of_merge_results:
  "count_of (merge_results r agg) category = count_of agg category + occurrences category r"
  unfolding merge_results_def
  by (induction r arbitrary: agg)
     (simp_all add: count_of_add_strings occurrences_def fragments_def)

lemma strings_of_merge_results:
  "strings_of (merge_results r agg) category = strings_of agg category \<union> set (fragments category r)"
  unfolding merge_results_def
  by (induction r arbitrary: agg)
     (auto simp: strings_of_add_strings fragments_def)

lemma count_of_fold_merge:
  "count_of (fold merge_results docs agg) category
   = count_of agg category + sum_list (map (occurrences category) docs)"
  by (induction docs arbitrary: agg) (simp_all add: count_of_merge_results)

lemma strings_of_fold_merge:
  "strings_of (fold merge_results docs agg) category
   = strings_of agg category \<union> set (concat (map (fragments category) docs))"
  by (induction docs arbitrary: agg) (auto simp: strings_of_merge_results)

lemma length_concat_fragments:
  "length (concat (map (fragments category) docs)) = sum_list (map (occurrences category) docs)"
  by (induction docs) (simp_all add: occurrences_def)

lemma empty_aggregate_of [simp]:
  "count_of empty_aggregate category = 0" "strings_of empty_aggregate category = {}"
  by (simp_all add: count_of_def strings_of_def)

lemma run_aggregate_scan:
  "run_aggregate (scan_directory_incremental E d source_dir file_types exclude_dirs cache_dir
      force verbose)
   = fold merge_results
       (merged_documents E (load_cache d (effective_cache_dir cache_dir)) force
          (collect_files E source_dir file_types exclude_dirs)) empty_aggregate"
  by (simp add: run_aggregate_def scan_fields(1,2))

lemma process_cache_other:
  "(filepath \<in> set fs \<Longrightarrow> failed E filepath) \<Longrightarrow> process_cache E i fs c filepath = c filepath"
  by (induction fs arbitrary: i c) auto

lemma process_cache_fresh:
  "filepath \<in> set fs \<Longrightarrow> \<not> failed E filepath \<Longrightarrow>
     \<exists>j. process_cache E i fs c filepath
          = Some \<lparr>e_hash = Some (calculate_file_hash E filepath),
                  e_timestamp = Some (now E j),
                  e_results = Some (fresh E filepath)\<rparr>"
proof (induction fs arbitrary: i c)
  case Nil
  then show ?case by simp
next
  case (Cons x fs)
  show ?case
  proof (cases "filepath \<in> set fs")
    case True
    then show ?thesis
      using Cons.IH [OF True Cons.prems(2)] by simp
  next
    case False
    then have x: "x = filepath"
      using Cons.prems(1) by simp
    have "process_cache E (i + 1) fs
            (c(filepath \<mapsto> \<lparr>e_hash = Some (calculate_file_hash E filepath),
                               e_timestamp = Some (now E i),
                               e_results = Some (fresh E filepath)\<rparr>)) filepath
          = (c(filepath \<mapsto> \<lparr>e_hash = Some (calculate_file_hash E filepath),
                               e_timestamp = Some (now E i),
                               e_results = Some (fresh E filepath)\<rparr>)) filepath"
      using False by (intro process_cache_other) simp
    then show ?thesis
      using Cons.prems(2) by (auto simp: x)
  qed
qed

lemma length_hex: "length (hex bs) = 2 * length bs"
  by (induction bs) simp_all

lemma length_md5_hexdigest: "length (md5_hexdigest b) = 32"
proof -
  obtain a0 b0 c0 d0 where
    "md5_chunks (0x67452301, 0xefcdab89, 0x98badcfe, 0x10325476) (md5_pad b) = (a0, b0, c0, d0)"
    using prod_cases4 by blast
  then show ?thesis
    by (simp add: md5_hexdigest_def md5_digest_def length_hex le32_bytes_def)
qed

lemma calculate_file_hash_unreadable:
  "read_bytes E filepath = Inl msg \<Longrightarrow> calculate_file_hash E filepath = []"
  by (simp add: calculate_file_hash_def)

lemma calculate_file_hash_readable:
  "read_bytes E filepath = Inr b \<Longrightarrow> length (calculate_file_hash E filepath) = 32"
  by (simp add: calculate_file_hash_def length_md5_hexdigest)

lemma read_text_unreadable:
  "read_bytes E filepath = Inl msg \<Longrightarrow> read_text E filepath = Inl msg"
  by (simp add: read_text_def)

lemma clock_hash [simp]:
  "calculate_file_hash (E\<lparr>now := clock\<rparr>) = calculate_file_hash E"
  by (simp add: fun_eq_iff calculate_file_hash_def)

lemma clock_hit [simp]: "cache_hit (E\<lparr>now := clock\<rparr>) = cache_hit E"
  by (simp add: fun_eq_iff cache_hit_def split: option.splits)

lemma clock_read_text [simp]: "read_text (E\<lparr>now := clock\<rparr>) filepath = read_text E filepath"
  by (simp add: read_text_def split: sum.splits)

lemma clock_extract [simp]:
  "extract_from_file (E\<lparr>now := clock\<rparr>) filepath file_type
   = extract_from_file E filepath file_type"
  by (simp add: extract_from_file_def
      extract_jsx_strings_def extract_button_text_def extract_label_text_def
      extract_placeholders_def extract_attribute_strings_def extract_toast_alert_strings_def
      extract_validation_strings_def extract_string_literals_def stripped_def
      split: sum.splits)

lemma clock_fresh [simp]: "fresh (E\<lparr>now := clock\<rparr>) = fresh E"
  by (simp add: fun_eq_iff fresh_def)

lemma clock_failed [simp]: "failed (E\<lparr>now := clock\<rparr>) = failed E"
  by (simp add: fun_eq_iff failed_def)

lemma clock_collect [simp]:
  "collect_files (E\<lparr>now := clock\<rparr>) = collect_files E"
  by (simp add: fun_eq_iff collect_files_def)

lemma cache_hit_cong: "c filepath = c' filepath \<Longrightarrow> cache_hit E c filepath = cache_hit E c' filepath"
  by (simp add: cache_hit_def)

lemma cached_data_cong: "c filepath = c' filepath \<Longrightarrow> cached_data c filepath = cached_data c' filepath"
  by (simp add: cached_data_def)

lemma hit_after_processing:
  assumes "filepath \<in> set fs"
  shows "cache_hit E (process_cache E i (filter (\<lambda>fp. \<not> cache_hit E c fp) fs) c) filepath
         \<longleftrightarrow> cache_hit E c filepath \<or> \<not> failed E filepath"
proof (cases "cache_hit E c filepath \<or> failed E filepath")
  case True
  then have "process_cache E i (filter (\<lambda>fp. \<not> cache_hit E c fp) fs) c filepath = c filepath"
    by (intro process_cache_other) auto
  then have "cache_hit E (process_cache E i (filter (\<lambda>fp. \<not> cache_hit E c fp) fs) c) filepath
             = cache_hit E c filepath"
    by (rule cache_hit_cong)
  then show ?thesis
    using True by (auto simp: failed_def)
next
  case False
  then obtain j where
    "process_cache E i (filter (\<lambda>fp. \<not> cache_hit E c fp) fs) c filepath
     = Some \<lparr>e_hash = Some (calculate_file_hash E filepath), e_timestamp = Some (now E j),
             e_results = Some (fresh E filepath)\<rparr>"
    using process_cache_fresh [of filepath "filter (\<lambda>fp. \<not> cache_hit E c fp) fs" E i c] assms
    by auto
  then show ?thesis
    using False by (simp add: cache_hit_def)
qed

lemma cached_after_processing:
  assumes "filepath \<in> set fs" "cache_hit E c filepath \<or> \<not> failed E filepath"
  shows "cached_data (process_cache E i (filter (\<lambda>fp. \<not> cache_hit E c fp) fs) c) filepath
         = (if cache_hit E c filepath then cached_data c filepath else fresh E filepath)"
proof (cases "cache_hit E c filepath")
  case True
  then have "process_cache E i (filter (\<lambda>fp. \<not> cache_hit E c fp) fs) c filepath = c filepath"
    by (intro process_cache_other) auto
  then have "cached_data (process_cache E i (filter (\<lambda>fp. \<not> cache_hit E c fp) fs) c) filepath
             = cached_data c filepath"
    by (rule cached_data_cong)
  then show ?thesis
    using True by simp
next
  case False
  then obtain j where
    "process_cache E i (filter (\<lambda>fp. \<not> cache_hit E c fp) fs) c filepath
     = Some \<lparr>e_hash = Some (calculate_file_hash E filepath), e_timestamp = Some (now E j),
             e_results = Some (fresh E filepath)\<rparr>"
    using process_cache_fresh [of filepath "filter (\<lambda>fp. \<not> cache_hit E c fp) fs" E i c] assms
    by auto
  then show ?thesis
    using False by (simp add: cached_data_def)
qed

lemma mset_hits_and_fresh:
  "mset (map (\<lambda>fp. if P fp then f fp else g fp) (filter (\<lambda>fp. P fp \<or> Q fp) fs))
   = mset (map f (filter P fs) @ map g (filter (\<lambda>fp. \<not> P fp \<and> Q fp) fs))"
  by (induction fs) auto

lemma second_run_documents:
  fixes E c fs i
  defines "c1 \<equiv> process_cache E i (filter (\<lambda>fp. \<not> cache_hit E c fp) fs) c"
  shows "mset (merged_documents E c1 False fs) = mset (merged_documents E c False fs)"
    and "work_items E c1 False fs = filter (failed E) (work_items E c False fs)"
proof -
  have hit: "cache_hit E c1 fp \<longleftrightarrow> cache_hit E c fp \<or> \<not> failed E fp" if "fp \<in> set fs" for fp
    unfolding c1_def using that by (rule hit_after_processing)
  have hits: "filter (cache_hit E c1) fs = filter (\<lambda>fp. cache_hit E c fp \<or> \<not> failed E fp) fs"
    by (rule filter_cong) (simp_all add: hit)
  have misses: "filter (\<lambda>fp. \<not> cache_hit E c1 fp) fs
                = filter (\<lambda>fp. \<not> cache_hit E c fp \<and> failed E fp) fs"
    by (rule filter_cong) (simp_all add: hit)
  have data: "map (cached_data c1) (filter (\<lambda>fp. cache_hit E c fp \<or> \<not> failed E fp) fs)
              = map (\<lambda>fp. if cache_hit E c fp then cached_data c fp else fresh E fp)
                  (filter (\<lambda>fp. cache_hit E c fp \<or> \<not> failed E fp) fs)"
    unfolding c1_def by (rule map_cong) (simp_all add: cached_after_processing)
  have none: "filter (\<lambda>fp. \<not> failed E fp) (filter (\<lambda>fp. \<not> cache_hit E c fp \<and> failed E fp) fs) = []"
    by (simp add: filter_empty_conv)
  have "merged_documents E c1 False fs
        = map (\<lambda>fp. if cache_hit E c fp then cached_data c fp else fresh E fp)
            (filter (\<lambda>fp. cache_hit E c fp \<or> \<not> failed E fp) fs)"
    by (simp only: merged_documents_def if_False hits misses data none list.map append_Nil2)
  moreover have "merged_documents E c False fs
        = map (cached_data c) (filter (cache_hit E c) fs)
          @ map (fresh E) (filter (\<lambda>fp. \<not> cache_hit E c fp \<and> \<not> failed E fp) fs)"
    by (simp only: merged_documents_def if_False filter_filter)
  ultimately show "mset (merged_documents E c1 False fs) = mset (merged_documents E c False fs)"
    by (simp only: mset_hits_and_fresh [where Q = "\<lambda>fp. \<not> failed E fp"])
  show "work_items E c1 False fs = filter (failed E) (work_items E c False fs)"
    by (simp add: work_items_def misses conj_commute)
qed

text \<open>
  C1, as the code has it. Two unforced runs over an unchanged tree return the same
  strings and the same counts. The second run extracts exactly the files whose extraction
  failed in the first run, because a failed result is never written to the cache; when
  every discovered file was read successfully the second run extracts nothing and does
  not write the cache.
\<close>

theorem second_run_repeats_first:
  fixes E d source_dir file_types exclude_dirs cache_dir verbose second_verbose second_clock
  defines "run1 \<equiv> scan_directory_incremental E d source_dir file_types exclude_dirs cache_dir
                       False verbose"
  defines "run2 \<equiv> scan_directory_incremental (E\<lparr>now := second_clock\<rparr>) (disk_after d run1) source_dir
                       file_types exclude_dirs cache_dir False second_verbose"
  shows "strings run2 = strings run1 \<and> counts run2 = counts run1
         \<and> extracted run2 = filter (failed E) (extracted run1)
         \<and> ((\<forall>filepath \<in> set (collect_files E source_dir file_types exclude_dirs).
                \<not> failed E filepath)
              \<longrightarrow> extracted run2 = [] \<and> disk_writes run2 = [])"
proof -
  let ?dir = "effective_cache_dir cache_dir"
  let ?fs = "collect_files E source_dir file_types exclude_dirs"
  let ?c = "load_cache d ?dir"
  let ?c1 = "process_cache E 1 (filter (\<lambda>fp. \<not> cache_hit E ?c fp) ?fs) ?c"
  have c1: "load_cache (disk_after d run1) ?dir = ?c1"
    unfolding run1_def by (simp only: scan_cache_after work_items_def if_False)
  have docs: "fold merge_results (merged_documents E ?c1 False ?fs) empty_aggregate
              = fold merge_results (merged_documents E ?c False ?fs) empty_aggregate"
    by (rule fold_merge_results_perm) (rule second_run_documents(1))
  have docs2: "merged_documents (E\<lparr>now := second_clock\<rparr>) ?c1 False ?fs = merged_documents E ?c1 False ?fs"
    by (simp add: merged_documents_def)
  have ex2: "extracted run2 = work_items E ?c1 False ?fs"
    unfolding run2_def by (simp only: scan_fields(3) c1 work_items_def clock_collect clock_hit)
  have ex1: "extracted run1 = work_items E ?c False ?fs"
    unfolding run1_def by (simp only: scan_fields(3))
  have ex: "extracted run2 = filter (failed E) (extracted run1)"
    by (simp only: ex1 ex2 second_run_documents(2))
  have "strings run2 = all_strings (fold merge_results
          (merged_documents (E\<lparr>now := second_clock\<rparr>) (load_cache (disk_after d run1) ?dir) False
             (collect_files (E\<lparr>now := second_clock\<rparr>) source_dir file_types exclude_dirs))
          empty_aggregate)"
    unfolding run2_def by (rule scan_fields(1))
  also have "\<dots> = all_strings (fold merge_results (merged_documents E ?c False ?fs) empty_aggregate)"
    by (simp only: c1 clock_collect docs2 docs)
  also have "\<dots> = strings run1"
    unfolding run1_def by (rule scan_fields(1) [symmetric])
  finally have "strings run2 = strings run1" .
  moreover have "counts run2 = file_counts (fold merge_results
          (merged_documents (E\<lparr>now := second_clock\<rparr>) (load_cache (disk_after d run1) ?dir) False
             (collect_files (E\<lparr>now := second_clock\<rparr>) source_dir file_types exclude_dirs))
          empty_aggregate)"
    unfolding run2_def by (rule scan_fields(2))
  then have "counts run2
             = file_counts (fold merge_results (merged_documents E ?c False ?fs) empty_aggregate)"
    by (simp only: c1 clock_collect docs2 docs)
  then have "counts run2 = counts run1"
    unfolding run1_def by (simp only: scan_fields(2))
  moreover have "extracted run2 = [] \<and> disk_writes run2 = []"
    if "\<forall>filepath \<in> set ?fs. \<not> failed E filepath"
  proof -
    have "set (extracted run1) \<subseteq> set ?fs"
      by (auto simp: ex1 work_items_def)
    then have e: "extracted run2 = []"
      using that by (auto simp: ex filter_empty_conv)
    have "disk_writes run2 = (if extracted run2 = [] then [] else
            save_cache_steps (process_cache (E\<lparr>now := second_clock\<rparr>) 1 (extracted run2)
              (load_cache (disk_after d run1) ?dir)) ?dir (disk_after d run1))"
      unfolding run2_def by (simp only: scan_fields(3,4))
    then have "disk_writes run2 = []"
      by (simp add: e)
    with e show ?thesis by simp
  qed
  ultimately show ?thesis
    using ex by (intro conjI impI) simp_all
qed

lemma classify_all_miss:
  "classify E Map.empty fs (agg, n, tp) = (agg, n, tp @ fs)"
  by (induction fs arbitrary: tp) (simp_all add: cache_hit_def)

lemma work_items_empty_cache: "work_items E Map.empty force fs = fs"
  by (simp add: work_items_def cache_hit_def)

lemma scan_same_cache:
  assumes "load_cache d' (effective_cache_dir cache_dir) = load_cache d (effective_cache_dir cache_dir)"
    and "d' = d(effective_cache_dir cache_dir := x)"
  shows "scan_directory_incremental E d' source_dir file_types exclude_dirs cache_dir force verbose
         = scan_directory_incremental E d source_dir file_types exclude_dirs cache_dir force verbose"
  unfolding scan_directory_incremental_def Let_def assms(1)
  by (simp add: split_beta save_cache_steps_def assms(2))

text \<open>
  C3. When the cache file cannot be parsed, \<open>load_cache\<close> returns the empty cache
  instead of raising; the run is then the run made with no cache file at all (same
  dictionaries, same output, same cache written), and every discovered file is extracted.
\<close>

theorem corrupt_cache_is_empty_cache:
  assumes "d (effective_cache_dir cache_dir) = Unparsable"
  shows "load_cache d (effective_cache_dir cache_dir) = Map.empty
         \<and> scan_directory_incremental E d source_dir file_types exclude_dirs cache_dir force verbose
           = scan_directory_incremental E (d(effective_cache_dir cache_dir := Missing)) source_dir
               file_types exclude_dirs cache_dir force verbose
         \<and> extracted (scan_directory_incremental E d source_dir file_types exclude_dirs cache_dir
               force verbose)
           = collect_files E source_dir file_types exclude_dirs"
proof -
  have empty: "load_cache d (effective_cache_dir cache_dir) = Map.empty"
    by (simp add: load_cache_def assms)
  have same: "load_cache (d(effective_cache_dir cache_dir := Missing)) (effective_cache_dir cache_dir)
              = load_cache d (effective_cache_dir cache_dir)"
    by (simp add: load_cache_def assms)
  have "scan_directory_incremental E (d(effective_cache_dir cache_dir := Missing)) source_dir
          file_types exclude_dirs cache_dir force verbose
        = scan_directory_incremental E d source_dir file_types exclude_dirs cache_dir force verbose"
    using same by (rule scan_same_cache) simp
  moreover have "extracted (scan_directory_incremental E d source_dir file_types exclude_dirs
                   cache_dir force verbose)
                 = collect_files E source_dir file_types exclude_dirs"
    by (simp only: scan_fields(3) empty work_items_empty_cache)
  ultimately show ?thesis
    using empty by simp
qed

text \<open>
  C10. Without force, when every discovered file is a cache hit, \<open>save_cache\<close> is not
  called: the disk is left as it was, nothing is extracted, and the returned dictionaries
  are the merge of the cached results.
\<close>

theorem no_save_when_all_hits:
  fixes verbose :: bool
  assumes "\<not> force_rescan"
    and "\<forall>filepath \<in> set (collect_files E source_dir file_types exclude_dirs).
           cache_hit E (load_cache d (effective_cache_dir cache_dir)) filepath"
  defines "r \<equiv> scan_directory_incremental E d source_dir file_types exclude_dirs cache_dir
                  force_rescan verbose"
  shows "disk_writes r = [] \<and> disk_after d r = d \<and> extracted r = []
         \<and> run_aggregate r
           = fold merge_results
               (map (cached_data (load_cache d (effective_cache_dir cache_dir)))
                  (collect_files E source_dir file_types exclude_dirs)) empty_aggregate"
proof -
  let ?c = "load_cache d (effective_cache_dir cache_dir)"
  let ?fs = "collect_files E source_dir file_types exclude_dirs"
  have hits: "filter (cache_hit E ?c) ?fs = ?fs"
    using assms(2) by (simp add: filter_id_conv)
  have misses: "filter (\<lambda>fp. \<not> cache_hit E ?c fp) ?fs = []"
    using assms(2) by (simp add: filter_empty_conv)
  have w: "work_items E ?c force_rescan ?fs = []"
    using assms(1) by (simp add: work_items_def misses)
  have e: "extracted r = []"
    unfolding r_def by (simp only: scan_fields(3) w)
  have dw: "disk_writes r = []"
    unfolding r_def by (simp add: scan_fields(4) w)
  have "merged_documents E ?c force_rescan ?fs = map (cached_data ?c) ?fs"
    using assms(1) by (simp add: merged_documents_def hits misses)
  then have "run_aggregate r = fold merge_results (map (cached_data ?c) ?fs) empty_aggregate"
    unfolding r_def by (simp only: run_aggregate_scan)
  then show ?thesis
    using e dw by (simp add: disk_after_def)
qed

text \<open>
  C2, as the code has it. \<open>save_cache\<close> writes the cache file in place. After a completed
  save, loading returns exactly the saved cache. In every state the disk passes through,
  the cache file is either the truncated file, which \<open>load_cache\<close> reads as the empty
  cache without raising, or the complete new dump; no other cache directory is touched.
\<close>

theorem save_cache_in_place:
  "load_cache (save_cache c cache_dir d) cache_dir = c
   \<and> (\<forall>s \<in> set (save_cache_steps c cache_dir d).
         (s cache_dir = Unparsable \<or> s cache_dir = Stored c)
         \<and> (load_cache s cache_dir = Map.empty \<or> load_cache s cache_dir = c)
         \<and> (\<forall>other. other \<noteq> cache_dir \<longrightarrow> s other = d other))"
  by (simp add: save_cache_def save_cache_steps_def load_cache_def)

text \<open>
  C4. Merging per-document results is independent of their order: two orders of the same
  results give the same aggregate (strings and counts), from any starting aggregate, for
  the merge loop of both scripts; the parallel scan returns the same aggregate for every
  completion order of the same work items.
\<close>

theorem merge_order_independent:
  "(mset rs = mset rs' \<longrightarrow>
      fold merge_completed rs agg = fold merge_completed rs' agg
      \<and> fold merge_results (map snd rs) agg = fold merge_results (map snd rs') agg)
   \<and> (mset work = mset work' \<longrightarrow>
      scan_directory_parallel E work = scan_directory_parallel E work')"
proof (intro conjI impI)
  assume rs: "mset rs = mset rs'"
  show "fold merge_completed rs agg = fold merge_completed rs' agg"
    using rs by (rule fold_merge_completed_perm)
  have "mset (map snd rs) = mset (map snd rs')"
    using rs by (metis mset_map)
  then show "fold merge_results (map snd rs) agg = fold merge_results (map snd rs') agg"
    by (rule fold_merge_results_perm)
next
  assume "mset work = mset work'"
  then have "mset (map (process_file E) work) = mset (map (process_file E) work')"
    by (metis mset_map)
  then show "scan_directory_parallel E work = scan_directory_parallel E work'"
    unfolding scan_directory_parallel_def by (rule fold_merge_completed_perm)
qed

lemma fold_merge_completed_eq:
  "fold merge_completed rs agg
   = fold merge_results (filter (\<lambda>res. \<not> has_error res) (map snd rs)) agg"
  by (induction rs arbitrary: agg) (simp_all add: merge_completed_def)

lemma card_strings_le_count:
  "card (strings_of (fold merge_results docs empty_aggregate) category)
   \<le> count_of (fold merge_results docs empty_aggregate) category"
proof -
  have "card (set (concat (map (fragments category) docs)))
        \<le> length (concat (map (fragments category) docs))"
    by (rule card_length)
  then show ?thesis
    by (simp only: strings_of_fold_merge count_of_fold_merge empty_aggregate_of
        length_concat_fragments Un_empty_left add_0)
qed

text \<open>
  C8. For every category, the count a run returns is the sum, over the documents merged,
  of the number of fragments the document has in that category; the set returned is the
  union of those fragments, so the count is at least the size of the set. The same holds
  for the parallel scan, over the documents whose extraction succeeded.
\<close>

theorem counts_sum_occurrences:
  fixes E d source_dir file_types exclude_dirs cache_dir force verbose work
  defines "r \<equiv> scan_directory_incremental E d source_dir file_types exclude_dirs cache_dir
                  force verbose"
  defines "docs \<equiv> merged_documents E (load_cache d (effective_cache_dir cache_dir)) force
                     (collect_files E source_dir file_types exclude_dirs)"
  defines "docs' \<equiv> filter (\<lambda>res. \<not> has_error res) (map snd (map (process_file E) work))"
  shows "count_of (run_aggregate r) category = sum_list (map (occurrences category) docs)
         \<and> strings_of (run_aggregate r) category = set (concat (map (fragments category) docs))
         \<and> card (strings_of (run_aggregate r) category) \<le> count_of (run_aggregate r) category
         \<and> count_of (scan_directory_parallel E work) category
             = sum_list (map (occurrences category) docs')
         \<and> card (strings_of (scan_directory_parallel E work) category)
             \<le> count_of (scan_directory_parallel E work) category"
proof -
  have r: "run_aggregate r = fold merge_results docs empty_aggregate"
    unfolding r_def docs_def by (rule run_aggregate_scan)
  have p: "scan_directory_parallel E work = fold merge_results docs' empty_aggregate"
    unfolding scan_directory_parallel_def docs'_def by (rule fold_merge_completed_eq)
  have c1: "card (strings_of (fold merge_results docs empty_aggregate) category)
            \<le> count_of (fold merge_results docs empty_aggregate) category"
    and c2: "card (strings_of (fold merge_results docs' empty_aggregate) category)
            \<le> count_of (fold merge_results docs' empty_aggregate) category"
    by (rule card_strings_le_count)+
  show ?thesis
    unfolding r p using c1 c2
    by (simp add: count_of_fold_merge strings_of_fold_merge del: set_concat)
qed

lemma not_failed_readable:
  "\<not> failed E filepath \<Longrightarrow> \<exists>b. read_bytes E filepath = Inr b"
  by (cases "read_bytes E filepath") (simp_all add: failed_iff read_text_def)

lemma cache_wf_process: "cache_wf c \<Longrightarrow> cache_wf (process_cache E i fs c)"
proof (induction fs arbitrary: i c)
  case Nil
  then show ?case by simp
next
  case (Cons x fs)
  show ?case
  proof (cases "failed E x")
    case True
    then show ?thesis
      using Cons by simp
  next
    case False
    then obtain b where "read_bytes E x = Inr b"
      using not_failed_readable by blast
    then have "length (calculate_file_hash E x) = 32"
      by (rule calculate_file_hash_readable)
    then have "cache_wf (c(x \<mapsto> \<lparr>e_hash = Some (calculate_file_hash E x),
                                  e_timestamp = Some (now E i),
                                  e_results = Some (fresh E x)\<rparr>))"
      using Cons.prems by (auto simp: cache_wf_def)
    then show ?thesis
      using False Cons.IH by simp
  qed
qed

text \<open>
  C9. A file whose bytes cannot be read has the empty string as its hash. When every hash
  stored in the cache has 32 characters, such a file is never a cache hit: it is handed to
  \<open>extract_from_file\<close>, which returns the \<open>error\<close> result, and its cache entry is left as
  it was. Every run keeps the stored hashes at 32 characters, since a hash is stored only
  after a successful extraction.
\<close>

theorem unhashable_file_never_hit:
  fixes verbose force :: bool and source_dir :: path and file_types exclude_dirs :: "string list"
  assumes "read_bytes E filepath = Inl msg"
    and "cache_wf (load_cache d (effective_cache_dir cache_dir))"
  defines "r \<equiv> scan_directory_incremental E d source_dir file_types exclude_dirs cache_dir
                  force verbose"
  shows "calculate_file_hash E filepath = []
         \<and> \<not> cache_hit E (load_cache d (effective_cache_dir cache_dir)) filepath
         \<and> has_error (extract_from_file E filepath file_type)
         \<and> (filepath \<in> set (collect_files E source_dir file_types exclude_dirs)
              \<longrightarrow> filepath \<in> set (extracted r))
         \<and> load_cache (disk_after d r) (effective_cache_dir cache_dir) filepath
             = load_cache d (effective_cache_dir cache_dir) filepath
         \<and> cache_wf (load_cache (disk_after d r) (effective_cache_dir cache_dir))"
proof -
  let ?c = "load_cache d (effective_cache_dir cache_dir)"
  let ?fs = "collect_files E source_dir file_types exclude_dirs"
  have h: "calculate_file_hash E filepath = []"
    using assms(1) by (rule calculate_file_hash_unreadable)
  have miss: "\<not> cache_hit E ?c filepath"
  proof
    assume "cache_hit E ?c filepath"
    then obtain e where "?c filepath = Some e" "e_hash e = Some []"
      by (auto simp: cache_hit_def h split: option.splits)
    then have "length ([] :: string) = 32"
      using assms(2) unfolding cache_wf_def by blast
    then show False by simp
  qed
  have err: "has_error (extract_from_file E filepath file_type)"
    using assms(1) by (simp add: has_error_extract read_text_def)
  have failed: "failed E filepath"
    using assms(1) by (simp add: failed_iff read_text_def)
  have ex: "filepath \<in> set (extracted r)" if "filepath \<in> set ?fs"
    unfolding r_def using that miss by (simp add: scan_fields(3) work_items_def)
  have after: "load_cache (disk_after d r) (effective_cache_dir cache_dir)
               = process_cache E 1 (work_items E ?c force ?fs) ?c"
    unfolding r_def by (rule scan_cache_after)
  have same: "load_cache (disk_after d r) (effective_cache_dir cache_dir) filepath = ?c filepath"
    unfolding after using failed by (intro process_cache_other)
  have wf: "cache_wf (load_cache (disk_after d r) (effective_cache_dir cache_dir))"
    unfolding after using assms(2) by (rule cache_wf_process)
  show ?thesis
    using h miss err ex same wf by blast
qed

text \<open>
  C5, as the code has it. A discovered file whose current hash is not the one stored in
  the cache is handed to \<open>extract_from_file\<close>; when the extraction succeeds, the cache
  entry of the file after the run consists of the current hash, a timestamp of this run
  and the fresh results only.
\<close>

theorem changed_fingerprint_reextracted:
  fixes verbose force :: bool
  assumes "filepath \<in> set (collect_files E source_dir file_types exclude_dirs)"
    and "\<not> cache_hit E (load_cache d (effective_cache_dir cache_dir)) filepath"
  defines "r \<equiv> scan_directory_incremental E d source_dir file_types exclude_dirs cache_dir
                  force verbose"
  shows "filepath \<in> set (extracted r)
         \<and> (\<not> failed E filepath \<longrightarrow>
              (\<exists>j. load_cache (disk_after d r) (effective_cache_dir cache_dir) filepath
                    = Some \<lparr>e_hash = Some (calculate_file_hash E filepath),
                            e_timestamp = Some (now E j),
                            e_results = Some (fresh E filepath)\<rparr>))"
proof -
  let ?c = "load_cache d (effective_cache_dir cache_dir)"
  let ?fs = "collect_files E source_dir file_types exclude_dirs"
  have w: "filepath \<in> set (work_items E ?c force ?fs)"
    using assms(1,2) by (simp add: work_items_def)
  have ex: "filepath \<in> set (extracted r)"
    unfolding r_def using w by (simp only: scan_fields(3))
  have after: "load_cache (disk_after d r) (effective_cache_dir cache_dir)
               = process_cache E 1 (work_items E ?c force ?fs) ?c"
    unfolding r_def by (rule scan_cache_after)
  have "\<exists>j. load_cache (disk_after d r) (effective_cache_dir cache_dir) filepath
             = Some \<lparr>e_hash = Some (calculate_file_hash E filepath),
                     e_timestamp = Some (now E j),
                     e_results = Some (fresh E filepath)\<rparr>"
    if "\<not> failed E filepath"
    unfolding after using w that by (rule process_cache_fresh)
  then show ?thesis
    using ex by blast
qed

lemma process_out_verbose:
  "snd (snd (process E True nf i fs (c, agg, out))) = out @ progress_lines True nf i fs"
  by (induction fs arbitrary: c agg out i) (simp_all add: Let_def)

lemma process_out_quiet:
  "snd (snd (process E False nf i fs (c, agg, out))) = out @ progress_lines False nf i fs"
  by (induction fs arbitrary: c agg out i) (simp_all add: Let_def)

lemma process_out:
  "snd (snd (process E verbose nf i fs (c, agg, out))) = out @ progress_lines verbose nf i fs"
  by (cases verbose) (simp_all only: process_out_verbose process_out_quiet)

lemma scan_printed:
  fixes E d source_dir file_types exclude_dirs cache_dir force verbose
  defines "c \<equiv> load_cache d (effective_cache_dir cache_dir)"
  defines "fs \<equiv> collect_files E source_dir file_types exclude_dirs"
  defines "w \<equiv> work_items E c force fs"
  shows "printed (scan_directory_incremental E d source_dir file_types exclude_dirs cache_dir
                    force verbose)
         = (if fs = [] then []
            else (if force then [''[!] Forced full re-scan (cache ignored)''] else [])
                 @ statistics (length fs) (if force then 0 else length (filter (cache_hit E c) fs))
                     (length w)
                 @ (if w = [] then []
                    else [''[>] Processing '' @ str_nat (length w) @ '' files...'']
                         @ progress_lines verbose (length w) 1 w
                         @ [''[OK] Cache updated'']))"
  unfolding scan_directory_incremental_def Let_def
  by (cases force)
     (simp_all add: split_beta classify_eq process_out w_def work_items_def c_def fs_def)

lemma without_file_hash [simp]:
  "calculate_file_hash (without_file x E) = calculate_file_hash E"
  by (simp add: fun_eq_iff calculate_file_hash_def without_file_def)

lemma without_file_hit [simp]: "cache_hit (without_file x E) = cache_hit E"
  by (simp add: fun_eq_iff cache_hit_def split: option.splits)

lemma without_file_read_text [simp]: "read_text (without_file x E) filepath = read_text E filepath"
  by (simp add: read_text_def without_file_def split: sum.splits)

lemma without_file_extract [simp]:
  "extract_from_file (without_file x E) filepath file_type = extract_from_file E filepath file_type"
  by (simp add: extract_from_file_def split: sum.splits)
     (simp add: without_file_def
      extract_jsx_strings_def extract_button_text_def extract_label_text_def
      extract_placeholders_def extract_attribute_strings_def extract_toast_alert_strings_def
      extract_validation_strings_def extract_string_literals_def stripped_def)

lemma without_file_fresh [simp]: "fresh (without_file x E) = fresh E"
  by (simp add: fun_eq_iff fresh_def)

lemma without_file_failed [simp]: "failed (without_file x E) = failed E"
  by (simp add: fun_eq_iff failed_def)

lemma without_file_collect:
  "collect_files (without_file x E) source_dir file_types exclude_dirs
   = removeAll x (collect_files E source_dir file_types exclude_dirs)"
  by (induction file_types)
     (simp_all add: collect_files_def without_file_def removeAll_filter_not_eq conj_commute)

lemma filter_removeAll_irrelevant: "\<not> P x \<Longrightarrow> filter P (removeAll x xs) = filter P xs"
  by (induction xs) auto

lemma merged_documents_removeAll:
  assumes "failed E x" "\<not> cache_hit E c x"
  shows "merged_documents E c force (removeAll x fs) = merged_documents E c force fs"
  using assms
  by (simp add: merged_documents_def filter_removeAll_irrelevant)

text \<open>
  C6, as the code has it. A document that cannot be read, and is not a cache hit,
  contributes nothing: the run returns the strings and counts of the run over the tree
  without that document, it leaves the cache entry of the document as it was, and the
  document is among the files handed to \<open>extract_from_file\<close>.
\<close>

theorem unreadable_document_skipped:
  fixes verbose force :: bool and source_dir :: path and file_types exclude_dirs :: "string list"
  assumes "read_text E filepath = Inl msg"
    and "\<not> cache_hit E (load_cache d (effective_cache_dir cache_dir)) filepath"
  defines "r \<equiv> scan_directory_incremental E d source_dir file_types exclude_dirs cache_dir
                  force verbose"
  defines "r' \<equiv> scan_directory_incremental (without_file filepath E) d source_dir file_types
                   exclude_dirs cache_dir force verbose"
  shows "strings r = strings r' \<and> counts r = counts r'
         \<and> load_cache (disk_after d r) (effective_cache_dir cache_dir) filepath
             = load_cache d (effective_cache_dir cache_dir) filepath
         \<and> (filepath \<in> set (collect_files E source_dir file_types exclude_dirs)
              \<longrightarrow> filepath \<in> set (extracted r))
         \<and> filepath \<notin> set (collect_files (without_file filepath E) source_dir file_types
                                exclude_dirs)"
proof -
  let ?c = "load_cache d (effective_cache_dir cache_dir)"
  let ?fs = "collect_files E source_dir file_types exclude_dirs"
  have failed: "failed E filepath"
    using assms(1) by (simp add: failed_iff)
  have docs: "merged_documents (without_file filepath E) ?c force
                (collect_files (without_file filepath E) source_dir file_types exclude_dirs)
              = merged_documents E ?c force ?fs"
  proof -
    have "merged_documents (without_file filepath E) ?c force (removeAll filepath ?fs)
          = merged_documents E ?c force (removeAll filepath ?fs)"
      by (simp add: merged_documents_def)
    also have "\<dots> = merged_documents E ?c force ?fs"
      using failed assms(2) by (rule merged_documents_removeAll)
    finally show ?thesis
      by (simp only: without_file_collect)
  qed
  have s: "strings r = strings r'" and n: "counts r = counts r'"
    unfolding r_def r'_def by (simp_all only: scan_fields(1,2) docs)
  have after: "load_cache (disk_after d r) (effective_cache_dir cache_dir)
               = process_cache E 1 (work_items E ?c force ?fs) ?c"
    unfolding r_def by (rule scan_cache_after)
  have same: "load_cache (disk_after d r) (effective_cache_dir cache_dir) filepath = ?c filepath"
    unfolding after using failed by (intro process_cache_other)
  have ex: "filepath \<in> set (extracted r)" if "filepath \<in> set ?fs"
    unfolding r_def using that assms(2) by (simp add: scan_fields(3) work_items_def)
  show ?thesis
    using s n same ex by (simp add: without_file_collect)
qed

lemma demo_collect_js:
  "collect_files demo_env ''src'' [''js''] [''node_modules'', ''dist'']
   = [''src/app.js'', ''src/my_node_modules_backup/a.js'']"
  by (simp add: collect_files_def demo_env_def excluded_def parts_def path_root_def)

lemma demo_collect_app:
  "collect_files demo_env ''src'' [''js''] [''node_modules'', ''my_node_modules_backup'']
   = [''src/app.js'']"
  by (simp add: collect_files_def demo_env_def excluded_def parts_def path_root_def)

lemma demo_collect_css:
  "collect_files demo_env ''src'' [''css''] [] = [''src/locked.css'']"
  by (simp add: collect_files_def demo_env_def excluded_def)

lemma demo_collect_all:
  "collect_files demo_env ''src'' [''js'', ''css''] [''node_modules'', ''my_node_modules_backup'']
   = [''src/app.js'', ''src/locked.css'']"
  by (simp add: collect_files_def demo_env_def excluded_def parts_def path_root_def)

text \<open>
  The segments of absolute and relative paths, and the exclusion test on the two roots:
  the root of a path with exactly two leading slashes is \<open>//\<close>, not \<open>/\<close>.
\<close>

lemma parts_roots:
  "parts ''//tmp/src/app.js'' = [''//'', ''tmp'', ''src'', ''app.js'']"
  "parts ''/tmp/src/app.js'' = [''/'', ''tmp'', ''src'', ''app.js'']"
  "parts ''///tmp/src/app.js'' = [''/'', ''tmp'', ''src'', ''app.js'']"
  "parts ''src//lib/./app.js'' = [''src'', ''lib'', ''app.js'']"
  by (simp_all add: parts_def path_root_def)

lemma excluded_roots:
  "\<not> excluded [''/''] ''//tmp/src/app.js''"
  "excluded [''//''] ''//tmp/src/app.js''"
  "excluded [''/''] ''/tmp/src/app.js''"
  "\<not> excluded [''//''] ''/tmp/src/app.js''"
  by (simp_all add: excluded_def parts_roots)

lemma default_dir: "effective_cache_dir None = ''.i18n-cache''"
  by (simp add: effective_cache_dir_def CACHE_DIR_def)

lemma demo_read_app: "read_text demo_env ''src/app.js'' = Inr ''Save''"
  by (simp add: read_text_def demo_env_def ascii_bytes_def ascii_decode_def char_of_def bit_0)

lemma demo_read_a: "read_text demo_env ''src/my_node_modules_backup/a.js'' = Inr ''Save''"
  by (simp add: read_text_def demo_env_def ascii_bytes_def ascii_decode_def char_of_def bit_0)

lemma demo_read_locked:
  "read_text demo_env ''src/locked.css'' = Inl ''[Errno 13] Permission denied''"
  by (simp add: read_text_def demo_env_def)

lemma demo_fresh_app:
  "fresh demo_env ''src/app.js'' = [(''validation'', []), (''ui_literals'', [''Save''])]"
  by (simp add: fresh_def extract_from_file_def demo_read_app suffix_def path_name_def
      lstrip_dot_def extract_validation_strings_def extract_string_literals_def py_set_def)
     (simp add: demo_env_def)

lemma demo_fresh_a:
  "fresh demo_env ''src/my_node_modules_backup/a.js''
   = [(''validation'', []), (''ui_literals'', [''Save''])]"
  by (simp add: fresh_def extract_from_file_def demo_read_a suffix_def path_name_def
      lstrip_dot_def extract_validation_strings_def extract_string_literals_def py_set_def)
     (simp add: demo_env_def)

text \<open>
  A directory named \<open>my_node_modules_backup\<close> is kept although \<open>node_modules\<close> is
  excluded; a file below \<open>node_modules\<close> is dropped.
\<close>

theorem discovery_excludes_exact_segments_witness:
  "''src/my_node_modules_backup/a.js''
     \<in> set (collect_files demo_env ''src'' [''js''] [''node_modules'', ''dist''])
   \<and> ''src/node_modules/b.js''
     \<notin> set (collect_files demo_env ''src'' [''js''] [''node_modules'', ''dist''])"
proof -
  have a: "(\<exists>file_type \<in> set [''js''].
              ''src/my_node_modules_backup/a.js''
                \<in> set (rglob demo_env ''src'' (''**/*.'' @ file_type)))
           \<and> \<not> (\<exists>segment \<in> set (parts ''src/my_node_modules_backup/a.js'').
                   segment \<in> set [''node_modules'', ''dist''])"
    by (simp add: demo_env_def parts_def path_root_def)
  have b: "\<exists>segment \<in> set (parts ''src/node_modules/b.js'').
             segment \<in> set [''node_modules'', ''dist'']"
    by (simp add: parts_def path_root_def)
  show ?thesis
    using a b
      discovery_excludes_exact_segments [where E = demo_env and source_dir = "''src''"
        and file_types = "[''js'']" and exclude_dirs = "[''node_modules'', ''dist'']"
        and filepath = "''src/my_node_modules_backup/a.js''"]
      discovery_excludes_exact_segments [where E = demo_env and source_dir = "''src''"
        and file_types = "[''js'']" and exclude_dirs = "[''node_modules'', ''dist'']"
        and filepath = "''src/node_modules/b.js''"]
    by blast
qed

text \<open>Two runs over the readable JavaScript files of the example tree.\<close>

theorem second_run_repeats_first_witness:
  "collect_files demo_env ''src'' [''js''] [''node_modules'', ''dist'']
     = [''src/app.js'', ''src/my_node_modules_backup/a.js'']
   \<and> \<not> failed demo_env ''src/app.js''
   \<and> \<not> failed demo_env ''src/my_node_modules_backup/a.js''
   \<and> extracted (scan_directory_incremental (demo_env\<lparr>now := (\<lambda>i. ''2024-01-02'')\<rparr>)
        (disk_after no_cache
           (scan_directory_incremental demo_env no_cache ''src'' [''js'']
              [''node_modules'', ''dist''] None False False))
        ''src'' [''js''] [''node_modules'', ''dist''] None False True) = []"
proof -
  have h: "\<forall>filepath \<in> set (collect_files demo_env ''src'' [''js''] [''node_modules'', ''dist'']).
             \<not> failed demo_env filepath"
    by (simp add: demo_collect_js failed_iff demo_read_app demo_read_a)
  have e: "extracted (scan_directory_incremental (demo_env\<lparr>now := (\<lambda>i. ''2024-01-02'')\<rparr>)
        (disk_after no_cache
           (scan_directory_incremental demo_env no_cache ''src'' [''js'']
              [''node_modules'', ''dist''] None False False))
        ''src'' [''js''] [''node_modules'', ''dist''] None False True) = []"
    by (rule second_run_repeats_first [where E = demo_env and d = no_cache
        and source_dir = "''src''" and file_types = "[''js'']"
        and exclude_dirs = "[''node_modules'', ''dist'']" and cache_dir = None
        and verbose = False and second_verbose = True and second_clock = "\<lambda>i. ''2024-01-02''",
        THEN conjunct2, THEN conjunct2, THEN conjunct2, THEN mp, OF h, THEN conjunct1])
  have f: "\<not> failed demo_env ''src/app.js''"
    "\<not> failed demo_env ''src/my_node_modules_backup/a.js''"
    by (simp_all add: failed_iff demo_read_app demo_read_a)
  show ?thesis
    by (intro conjI demo_collect_js f e)
qed

text \<open>
  C1 as stated fails for a tree with a file that cannot be read: the file is not cached by
  the first run, so the second run hands it to \<open>extract_from_file\<close> again.
\<close>

theorem second_run_counterexample:
  "extracted (scan_directory_incremental demo_env
        (disk_after no_cache
           (scan_directory_incremental demo_env no_cache ''src'' [''css''] [] None False False))
        ''src'' [''css''] [] None False False) = [''src/locked.css'']"
proof -
  have c: "load_cache no_cache (effective_cache_dir None) = Map.empty"
    by (simp add: load_cache_def no_cache_def)
  have f: "failed demo_env ''src/locked.css''"
    by (simp add: failed_iff demo_read_locked)
  have w: "work_items demo_env Map.empty False [''src/locked.css''] = [''src/locked.css'']"
    by (rule work_items_empty_cache)
  have p: "process_cache demo_env 1 [''src/locked.css''] Map.empty = Map.empty"
    using f by simp
  have "load_cache (disk_after no_cache
           (scan_directory_incremental demo_env no_cache ''src'' [''css''] [] None False False))
         (effective_cache_dir None) = Map.empty"
    by (simp only: scan_cache_after demo_collect_css c w p)
  then have "extracted (scan_directory_incremental demo_env
        (disk_after no_cache
           (scan_directory_incremental demo_env no_cache ''src'' [''css''] [] None False False))
        ''src'' [''css''] [] None False False)
      = work_items demo_env Map.empty False [''src/locked.css'']"
    by (simp only: scan_fields(3) demo_collect_css)
  then show ?thesis
    by (simp only: w)
qed

text \<open>The example tree scanned over a cache file that cannot be parsed.\<close>

theorem corrupt_cache_is_empty_cache_witness:
  "corrupt_cache (effective_cache_dir None) = Unparsable
   \<and> scan_directory_incremental demo_env corrupt_cache ''src'' [''js'']
        [''node_modules'', ''dist''] None False False
     = scan_directory_incremental demo_env (corrupt_cache(effective_cache_dir None := Missing))
         ''src'' [''js''] [''node_modules'', ''dist''] None False False
   \<and> extracted (scan_directory_incremental demo_env corrupt_cache ''src'' [''js'']
        [''node_modules'', ''dist''] None False False)
     = [''src/app.js'', ''src/my_node_modules_backup/a.js'']"
proof -
  have h: "corrupt_cache (effective_cache_dir None) = Unparsable"
    by (simp add: corrupt_cache_def default_dir)
  note t = corrupt_cache_is_empty_cache [where d = corrupt_cache and cache_dir = None
        and E = demo_env and source_dir = "''src''"
        and file_types = "[''js'']" and exclude_dirs = "[''node_modules'', ''dist'']"
        and force = False and verbose = False, OF h]
  have e: "extracted (scan_directory_incremental demo_env corrupt_cache ''src'' [''js'']
        [''node_modules'', ''dist''] None False False)
     = [''src/app.js'', ''src/my_node_modules_backup/a.js'']"
    using t [THEN conjunct2, THEN conjunct2] by (simp only: demo_collect_js)
  show ?thesis
    by (intro conjI h t [THEN conjunct2, THEN conjunct1] e)
qed

text \<open>
  C2 as stated fails: there is no temporary file and no rename. The first state of a save
  over an existing cache is a file that is neither the previous cache nor the new one.
\<close>

theorem save_cache_not_atomic_counterexample:
  "hd (save_cache_steps Map.empty ''.i18n-cache'' stale_cache) ''.i18n-cache''
     \<noteq> stale_cache ''.i18n-cache''
   \<and> hd (save_cache_steps Map.empty ''.i18n-cache'' stale_cache) ''.i18n-cache''
     \<noteq> Stored Map.empty"
  by (simp add: save_cache_steps_def stale_cache_def)

text \<open>Saving the empty cache over the stale one.\<close>

theorem save_cache_in_place_witness:
  "load_cache (save_cache Map.empty ''.i18n-cache'' stale_cache) ''.i18n-cache'' = Map.empty
   \<and> (hd (save_cache_steps Map.empty ''.i18n-cache'' stale_cache) ''.i18n-cache'' = Unparsable
        \<or> hd (save_cache_steps Map.empty ''.i18n-cache'' stale_cache) ''.i18n-cache''
          = Stored Map.empty)"
proof -
  have m: "hd (save_cache_steps Map.empty ''.i18n-cache'' stale_cache)
             \<in> set (save_cache_steps Map.empty ''.i18n-cache'' stale_cache)"
    by (simp add: save_cache_steps_def)
  note t = save_cache_in_place [of Map.empty "''.i18n-cache''" stale_cache]
  show ?thesis
    using t [THEN conjunct1] t [THEN conjunct2, THEN bspec, OF m, THEN conjunct1]
    by (rule conjI)
qed

text \<open>The example tree scanned over a cache that holds the current hash of its file.\<close>

theorem no_save_when_all_hits_witness:
  "collect_files demo_env ''src'' [''js''] [''node_modules'', ''my_node_modules_backup'']
     = [''src/app.js'']
   \<and> cache_hit demo_env (load_cache warm_cache (effective_cache_dir None)) ''src/app.js''
   \<and> disk_writes (scan_directory_incremental demo_env warm_cache ''src'' [''js'']
        [''node_modules'', ''my_node_modules_backup''] None False False) = []"
proof -
  have h: "\<forall>filepath \<in> set (collect_files demo_env ''src'' [''js'']
                                [''node_modules'', ''my_node_modules_backup'']).
             cache_hit demo_env (load_cache warm_cache (effective_cache_dir None)) filepath"
    by (simp add: demo_collect_app default_dir load_cache_def warm_cache_def cache_hit_def)
  have f: "\<not> False" by simp
  have w: "disk_writes (scan_directory_incremental demo_env warm_cache ''src'' [''js'']
        [''node_modules'', ''my_node_modules_backup''] None False False) = []"
    by (rule no_save_when_all_hits [where verbose = False, OF f h, THEN conjunct1])
  have c: "cache_hit demo_env (load_cache warm_cache (effective_cache_dir None)) ''src/app.js''"
    by (simp add: default_dir load_cache_def warm_cache_def cache_hit_def)
  show ?thesis
    by (intro conjI demo_collect_app c w)
qed

text \<open>Two results, and two work items, merged in both orders.\<close>

theorem merge_order_independent_witness:
  "mset [(''a.js'', [(''buttons'', [''Save''])]), (''b.js'', [(''buttons'', [''Cancel''])])]
     = mset [(''b.js'', [(''buttons'', [''Cancel''])]), (''a.js'', [(''buttons'', [''Save''])])]
   \<and> mset [(''src/app.js'', ''js''), (''src/locked.css'', ''css'')]
     = mset [(''src/locked.css'', ''css''), (''src/app.js'', ''js'')]
   \<and> fold merge_completed
         [(''a.js'', [(''buttons'', [''Save''])]), (''b.js'', [(''buttons'', [''Cancel''])])]
         empty_aggregate
     = fold merge_completed
         [(''b.js'', [(''buttons'', [''Cancel''])]), (''a.js'', [(''buttons'', [''Save''])])]
         empty_aggregate
   \<and> scan_directory_parallel demo_env [(''src/app.js'', ''js''), (''src/locked.css'', ''css'')]
     = scan_directory_parallel demo_env [(''src/locked.css'', ''css''), (''src/app.js'', ''js'')]"
proof -
  have h1: "mset [(''a.js'', [(''buttons'', [''Save''])]), (''b.js'', [(''buttons'', [''Cancel''])])]
            = mset [(''b.js'', [(''buttons'', [''Cancel''])]), (''a.js'', [(''buttons'', [''Save''])])]"
    by (simp add: add_mset_commute)
  have h2: "mset [(''src/app.js'', ''js''), (''src/locked.css'', ''css'')]
            = mset [(''src/locked.css'', ''css''), (''src/app.js'', ''js'')]"
    by (simp add: add_mset_commute)
  note t = merge_order_independent [where agg = empty_aggregate and E = demo_env
      and rs = "[(''a.js'', [(''buttons'', [''Save''])]), (''b.js'', [(''buttons'', [''Cancel''])])]"
      and rs' = "[(''b.js'', [(''buttons'', [''Cancel''])]), (''a.js'', [(''buttons'', [''Save''])])]"
      and work = "[(''src/app.js'', ''js''), (''src/locked.css'', ''css'')]"
      and work' = "[(''src/locked.css'', ''css''), (''src/app.js'', ''js'')]"]
  show ?thesis
    by (intro conjI h1 h2 t [THEN conjunct1, THEN mp, OF h1, THEN conjunct1]
        t [THEN conjunct2, THEN mp, OF h2])
qed

lemma no_cache_empty: "load_cache no_cache (effective_cache_dir None) = Map.empty"
  by (simp add: load_cache_def no_cache_def)

lemma demo_hash_length: "length (calculate_file_hash demo_env ''src/app.js'') = 32"
  by (rule calculate_file_hash_readable [where b = "ascii_bytes ''Save''"])
     (simp add: demo_env_def)

lemma stale_miss:
  "\<not> cache_hit demo_env (load_cache stale_cache (effective_cache_dir None)) ''src/app.js''"
proof
  assume "cache_hit demo_env (load_cache stale_cache (effective_cache_dir None)) ''src/app.js''"
  then have "calculate_file_hash demo_env ''src/app.js'' = ''stale''"
    by (simp add: cache_hit_def load_cache_def stale_cache_def default_dir)
  then have "length (calculate_file_hash demo_env ''src/app.js'') = 5"
    by simp
  then show False
    using demo_hash_length by simp
qed

text \<open>
  The stale cache holds another hash and the fragment \<open>Old\<close> for \<open>src/app.js\<close>; after the
  run its entry holds the current hash and the fragment \<open>Save\<close> only.
\<close>

theorem changed_fingerprint_reextracted_witness:
  "''src/app.js'' \<in> set (collect_files demo_env ''src'' [''js'']
                             [''node_modules'', ''my_node_modules_backup''])
   \<and> \<not> cache_hit demo_env (load_cache stale_cache (effective_cache_dir None)) ''src/app.js''
   \<and> \<not> failed demo_env ''src/app.js''
   \<and> ''src/app.js'' \<in> set (extracted (scan_directory_incremental demo_env stale_cache ''src''
          [''js''] [''node_modules'', ''my_node_modules_backup''] None False False))
   \<and> (\<exists>j. load_cache (disk_after stale_cache (scan_directory_incremental demo_env stale_cache
                ''src'' [''js''] [''node_modules'', ''my_node_modules_backup''] None False False))
              (effective_cache_dir None) ''src/app.js''
            = Some \<lparr>e_hash = Some (calculate_file_hash demo_env ''src/app.js''),
                    e_timestamp = Some (now demo_env j),
                    e_results = Some [(''validation'', []), (''ui_literals'', [''Save''])]\<rparr>)"
proof -
  have m: "''src/app.js'' \<in> set (collect_files demo_env ''src'' [''js'']
                                    [''node_modules'', ''my_node_modules_backup''])"
    by (simp add: demo_collect_app)
  have f: "\<not> failed demo_env ''src/app.js''"
    by (simp add: failed_iff demo_read_app)
  note t = changed_fingerprint_reextracted [where verbose = False and force = False, OF m stale_miss]
  show ?thesis
    using t [THEN conjunct2, THEN mp, OF f]
    by (intro conjI m stale_miss f t [THEN conjunct1]) (simp only: demo_fresh_app)
qed

lemma locked_miss:
  "\<not> cache_hit demo_env (load_cache no_cache (effective_cache_dir None)) ''src/locked.css''"
  by (simp add: no_cache_empty cache_hit_def)

text \<open>The example tree with and without its unreadable style sheet.\<close>

theorem unreadable_document_skipped_witness:
  "read_text demo_env ''src/locked.css'' = Inl ''[Errno 13] Permission denied''
   \<and> \<not> cache_hit demo_env (load_cache no_cache (effective_cache_dir None)) ''src/locked.css''
   \<and> strings (scan_directory_incremental demo_env no_cache ''src'' [''js'', ''css'']
         [''node_modules'', ''my_node_modules_backup''] None False False)
     = strings (scan_directory_incremental (without_file ''src/locked.css'' demo_env) no_cache
         ''src'' [''js'', ''css''] [''node_modules'', ''my_node_modules_backup''] None False False)
   \<and> counts (scan_directory_incremental demo_env no_cache ''src'' [''js'', ''css'']
         [''node_modules'', ''my_node_modules_backup''] None False False)
     = counts (scan_directory_incremental (without_file ''src/locked.css'' demo_env) no_cache
         ''src'' [''js'', ''css''] [''node_modules'', ''my_node_modules_backup''] None False False)
   \<and> load_cache (disk_after no_cache (scan_directory_incremental demo_env no_cache ''src''
         [''js'', ''css''] [''node_modules'', ''my_node_modules_backup''] None False False))
       (effective_cache_dir None) ''src/locked.css''
     = load_cache no_cache (effective_cache_dir None) ''src/locked.css''"
proof -
  note t = unreadable_document_skipped [where verbose = False and force = False
      and source_dir = "''src''" and file_types = "[''js'', ''css'']"
      and exclude_dirs = "[''node_modules'', ''my_node_modules_backup'']",
      OF demo_read_locked locked_miss]
  show ?thesis
    by (intro conjI demo_read_locked locked_miss t [THEN conjunct1]
        t [THEN conjunct2, THEN conjunct1] t [THEN conjunct2, THEN conjunct2, THEN conjunct1])
qed

text \<open>The unreadable style sheet of the example tree, over an empty cache.\<close>

theorem unhashable_file_never_hit_witness:
  "read_bytes demo_env ''src/locked.css'' = Inl ''[Errno 13] Permission denied''
   \<and> cache_wf (load_cache no_cache (effective_cache_dir None))
   \<and> calculate_file_hash demo_env ''src/locked.css'' = []
   \<and> \<not> cache_hit demo_env (load_cache no_cache (effective_cache_dir None)) ''src/locked.css''
   \<and> has_error (extract_from_file demo_env ''src/locked.css'' ''css'')"
proof -
  have r: "read_bytes demo_env ''src/locked.css'' = Inl ''[Errno 13] Permission denied''"
    by (simp add: demo_env_def)
  have w: "cache_wf (load_cache no_cache (effective_cache_dir None))"
    by (simp add: no_cache_empty cache_wf_def)
  note t = unhashable_file_never_hit [where verbose = False and force = False
      and source_dir = "''src''" and file_types = "[''css'']" and exclude_dirs = "[]"
      and file_type = "''css''", OF r w]
  show ?thesis
    by (intro conjI r w t [THEN conjunct1] t [THEN conjunct2, THEN conjunct1]
        t [THEN conjunct2, THEN conjunct2, THEN conjunct1])
qed

lemma demo_documents:
  "merged_documents demo_env (load_cache no_cache (effective_cache_dir None)) False
     (collect_files demo_env ''src'' [''js''] [''node_modules'', ''dist''])
   = [[(''validation'', []), (''ui_literals'', [''Save''])],
      [(''validation'', []), (''ui_literals'', [''Save''])]]"
  by (simp add: merged_documents_def no_cache_empty demo_collect_js cache_hit_def failed_iff
      demo_read_app demo_read_a demo_fresh_app demo_fresh_a)

text \<open>
  Two files contribute the fragment \<open>Save\<close>: the count is 2 and the set has one element.
\<close>

theorem counts_sum_occurrences_witness:
  "count_of (run_aggregate (scan_directory_incremental demo_env no_cache ''src'' [''js'']
      [''node_modules'', ''dist''] None False False)) ''ui_literals'' = 2
   \<and> strings_of (run_aggregate (scan_directory_incremental demo_env no_cache ''src'' [''js'']
      [''node_modules'', ''dist''] None False False)) ''ui_literals'' = {''Save''}"
proof -
  note t = counts_sum_occurrences [where E = demo_env and d = no_cache and source_dir = "''src''"
      and file_types = "[''js'']" and exclude_dirs = "[''node_modules'', ''dist'']"
      and cache_dir = None and force = False and verbose = False
      and category = "''ui_literals''" and work = "[]"]
  show ?thesis
    using t [THEN conjunct1] t [THEN conjunct2, THEN conjunct1]
    by (simp add: demo_documents occurrences_def fragments_def)
qed

lemma readable_collect_css:
  "collect_files readable_env ''src'' [''css''] [] = [''src/locked.css'']"
  by (simp add: collect_files_def readable_env_def demo_env_def excluded_def)

lemma readable_fresh_locked: "fresh readable_env ''src/locked.css'' = []"
  by (simp add: fresh_def extract_from_file_def read_text_def readable_env_def demo_env_def
      ascii_bytes_def ascii_decode_def suffix_def path_name_def lstrip_dot_def)

lemma str_nat_digits: "str_nat 0 = ''0''" "str_nat 1 = ''1''" "str_nat (Suc 0) = ''1''"
  by (simp_all add: str_nat.simps digit_char_def)

lemma locked_printed:
  "printed (scan_directory_incremental demo_env no_cache ''src'' [''css''] [] None False True)
   = [''[*] Cache Statistics:'', ''  Total files: 1'', ''  Cached files: 0 (0%)'',
      ''  New/changed files: 1'', ''[>] Processing 1 files...'', ''  [1/1] src/locked.css'',
      ''[OK] Cache updated'']"
  by (simp add: scan_printed no_cache_empty demo_collect_css work_items_empty_cache
      cache_hit_def statistics_def str_nat_digits)

lemma readable_printed:
  "printed (scan_directory_incremental readable_env no_cache ''src'' [''css''] [] None False True)
   = [''[*] Cache Statistics:'', ''  Total files: 1'', ''  Cached files: 0 (0%)'',
      ''  New/changed files: 1'', ''[>] Processing 1 files...'', ''  [1/1] src/locked.css'',
      ''[OK] Cache updated'']"
  by (simp add: scan_printed no_cache_empty readable_collect_css work_items_empty_cache
      cache_hit_def statistics_def str_nat_digits)

lemma locked_aggregate:
  "strings (scan_directory_incremental demo_env no_cache ''src'' [''css''] [] None False True)
     = Map.empty
   \<and> counts (scan_directory_incremental demo_env no_cache ''src'' [''css''] [] None False True)
     = Map.empty"
  by (simp add: scan_fields(1,2) no_cache_empty demo_collect_css merged_documents_def
      cache_hit_def failed_iff demo_read_locked)

lemma readable_aggregate:
  "strings (scan_directory_incremental readable_env no_cache ''src'' [''css''] [] None False True)
     = Map.empty
   \<and> counts (scan_directory_incremental readable_env no_cache ''src'' [''css''] [] None False True)
     = Map.empty"
  by (simp add: scan_fields(1,2) no_cache_empty readable_collect_css merged_documents_def
      cache_hit_def readable_fresh_locked failed_def has_error_def merge_results_def)

text \<open>
  C6 as stated fails in its last part: no failure is counted or printed. The run over the
  tree whose style sheet cannot be read prints, with \<open>verbose\<close> set, and returns exactly
  what the run prints and returns when the style sheet can be read.
\<close>

theorem failure_not_reported_counterexample:
  "read_text demo_env ''src/locked.css'' = Inl ''[Errno 13] Permission denied''
   \<and> read_text readable_env ''src/locked.css'' = Inr ''Save''
   \<and> printed (scan_directory_incremental demo_env no_cache ''src'' [''css''] [] None False True)
     = [''[*] Cache Statistics:'', ''  Total files: 1'', ''  Cached files: 0 (0%)'',
        ''  New/changed files: 1'', ''[>] Processing 1 files...'', ''  [1/1] src/locked.css'',
        ''[OK] Cache updated'']
   \<and> printed (scan_directory_incremental demo_env no_cache ''src'' [''css''] [] None False True)
     = printed (scan_directory_incremental readable_env no_cache ''src'' [''css''] [] None
                  False True)
   \<and> strings (scan_directory_incremental demo_env no_cache ''src'' [''css''] [] None False True)
     = strings (scan_directory_incremental readable_env no_cache ''src'' [''css''] [] None
                  False True)
   \<and> counts (scan_directory_incremental demo_env no_cache ''src'' [''css''] [] None False True)
     = counts (scan_directory_incremental readable_env no_cache ''src'' [''css''] [] None
                 False True)"
proof -
  have r: "read_text readable_env ''src/locked.css'' = Inr ''Save''"
    by (simp add: read_text_def readable_env_def demo_env_def ascii_bytes_def ascii_decode_def
        char_of_def bit_0)
  show ?thesis
    by (simp only: demo_read_locked r locked_printed readable_printed locked_aggregate
        readable_aggregate simp_thms)
qed

lemma replicate_numeral_unfold: "replicate (numeral v) x = x # replicate (numeral v - 1) x"
  by (simp add: numeral_eq_Suc)

lemmas md5_eval = md5_hexdigest_def md5_digest_def md5_pad_def md5_chunk_def md5_K_def md5_s_def
  leftrotate_def md5_F_def md5_g_def hex_digit_def le64_bytes_def le32_bytes_def md5_chunks.simps
  replicate_numeral_unfold ascii_bytes_def

lemma pad_a: "md5_pad text_a = block_a @ block_tail"
  by (simp add: block_a_def block_tail_def)

lemma pad_b: "md5_pad text_b = block_b @ block_tail"
  by (simp add: block_b_def block_tail_def text_a_def text_b_def md5_eval)

lemma length_blocks: "length block_a = 64" "length block_b = 64" "length block_tail = 64"
  by (simp_all add: block_a_def block_b_def block_tail_def md5_pad_def le64_bytes_def
      text_a_def text_b_def ascii_bytes_def)

lemma chunk_a: "md5_chunk md5_init block_a = (0xe22ebfe4, 0x9e2ac02a, 0x9b6b3769, 0xcd599281)"
  by (simp add: md5_init_def block_a_def text_a_def md5_eval)

lemma chunk_b: "md5_chunk md5_init block_b = (0x622ebfe4, 0x1e2ac02a, 0x1b6b3769, 0x4d599281)"
  by (simp add: md5_init_def block_b_def text_b_def md5_eval)

lemma chunk_tail_a: "md5_chunk (0xe22ebfe4, 0x9e2ac02a, 0x9b6b3769, 0xcd599281) block_tail = (0x8649adfa, 0xfc98946e, 0x28f51917, 0x69027a9e)"
  by (simp add: block_tail_def text_a_def md5_eval)

lemma chunk_tail_b: "md5_chunk (0x622ebfe4, 0x1e2ac02a, 0x1b6b3769, 0x4d599281) block_tail = (0x8649adfa, 0xfc98946e, 0x28f51917, 0x69027a9e)"
  by (simp add: block_tail_def text_a_def md5_eval)

lemma md5_chunks_two:
  assumes "length b1 = 64" "length b2 = 64"
  shows "md5_chunks h (b1 @ b2) = md5_chunk (md5_chunk h b1) b2"
proof -
  have "b1 \<noteq> []" "b2 \<noteq> []"
    using assms by auto
  then show ?thesis
    using assms
    by (subst md5_chunks.simps, simp, subst md5_chunks.simps, simp, subst md5_chunks.simps, simp)
qed

text \<open>The digests of the two texts, computed block by block.\<close>

lemma md5_text_a: "md5_hexdigest text_a = ''faad49866e9498fc1719f5289e7a0269''"
  by (simp add: md5_hexdigest_def md5_digest_def pad_a md5_chunks_two length_blocks
      md5_init_def [symmetric] chunk_a chunk_tail_a le32_bytes_def hex_digit_def)

lemma md5_text_b: "md5_hexdigest text_b = ''faad49866e9498fc1719f5289e7a0269''"
  by (simp add: md5_hexdigest_def md5_digest_def pad_b md5_chunks_two length_blocks
      md5_init_def [symmetric] chunk_b chunk_tail_b le32_bytes_def hex_digit_def)

lemma text_differs: "text_a \<noteq> text_b"
  by (simp add: text_a_def text_b_def ascii_bytes_def)

lemma collision_collect:
  "collect_files (collision_env content) ''src'' [''js''] [] = [''src/a.js'']"
  by (simp add: collect_files_def collision_env_def excluded_def)

lemma collision_hash:
  "calculate_file_hash (collision_env content) ''src/a.js'' = md5_hexdigest content"
  by (simp add: calculate_file_hash_def collision_env_def)

lemma text_a_decodes: "\<exists>content. ascii_decode text_a = Inr content"
  by (simp add: ascii_decode_def text_a_def ascii_bytes_def)

lemma collision_first_ok: "\<not> failed (collision_env text_a) ''src/a.js''"
  using text_a_decodes by (auto simp: failed_iff read_text_def collision_env_def)

text \<open>
  C5 as stated fails for two different contents with the same MD5 digest: after a first
  run on one of them, the second run, on the other, finds the stored hash equal to the
  current one and extracts nothing.
\<close>

theorem changed_content_same_hash_counterexample:
  "read_bytes (collision_env text_a) ''src/a.js'' \<noteq> read_bytes (collision_env text_b) ''src/a.js''
   \<and> calculate_file_hash (collision_env text_a) ''src/a.js'' = ''faad49866e9498fc1719f5289e7a0269''
   \<and> calculate_file_hash (collision_env text_b) ''src/a.js'' = ''faad49866e9498fc1719f5289e7a0269''
   \<and> extracted (scan_directory_incremental (collision_env text_a) no_cache ''src'' [''js''] []
        None False False) = [''src/a.js'']
   \<and> extracted (scan_directory_incremental (collision_env text_b)
        (disk_after no_cache
           (scan_directory_incremental (collision_env text_a) no_cache ''src'' [''js''] []
              None False False))
        ''src'' [''js''] [] None False False) = []"
proof -
  have d: "read_bytes (collision_env text_a) ''src/a.js''
           \<noteq> read_bytes (collision_env text_b) ''src/a.js''"
    using text_differs by (simp add: collision_env_def)
  have ha: "calculate_file_hash (collision_env text_a) ''src/a.js''
            = ''faad49866e9498fc1719f5289e7a0269''"
    by (simp only: collision_hash md5_text_a)
  have hb: "calculate_file_hash (collision_env text_b) ''src/a.js''
            = ''faad49866e9498fc1719f5289e7a0269''"
    by (simp only: collision_hash md5_text_b)
  have w: "work_items (collision_env text_a) Map.empty False [''src/a.js''] = [''src/a.js'']"
    by (rule work_items_empty_cache)
  have e1: "extracted (scan_directory_incremental (collision_env text_a) no_cache ''src'' [''js'']
              [] None False False) = [''src/a.js'']"
    by (simp only: scan_fields(3) no_cache_empty collision_collect w)
  have c1: "load_cache (disk_after no_cache
              (scan_directory_incremental (collision_env text_a) no_cache ''src'' [''js''] []
                 None False False)) (effective_cache_dir None)
            = process_cache (collision_env text_a) 1 [''src/a.js''] Map.empty"
    by (simp only: scan_cache_after no_cache_empty collision_collect w)
  have hit: "cache_hit (collision_env text_b)
               (process_cache (collision_env text_a) 1 [''src/a.js''] Map.empty) ''src/a.js''"
    using collision_first_ok by (simp add: cache_hit_def ha hb)
  have "extracted (scan_directory_incremental (collision_env text_b)
          (disk_after no_cache
             (scan_directory_incremental (collision_env text_a) no_cache ''src'' [''js''] []
                None False False))
          ''src'' [''js''] [] None False False)
        = work_items (collision_env text_b)
            (process_cache (collision_env text_a) 1 [''src/a.js''] Map.empty) False
            [''src/a.js'']"
    by (simp only: scan_fields(3) c1 collision_collect)
  also have "\<dots> = []"
    using hit by (simp add: work_items_def)
  finally show ?thesis
    using d ha hb e1 by (intro conjI)
qed

end
